theory Spec2Isabelle
  imports Main "HOL-Library.Word" "HOL-Library.Sublist"
begin

section \<open>JavaScript strings and the built-ins the data processor calls\<close>

text \<open>
  A JavaScript string is a sequence of 16-bit code units. Literals of the source are
  written \<open>js ''...''\<close>; code units above ASCII are written as numerals
  (\<open>0xF3\<close> is the code unit of o-acute).
\<close>

type_synonym jschar = "16 word"
type_synonym jsstring = "jschar list"

definition js :: "string \<Rightarrow> jsstring" where
  "js s = map of_char s"

text \<open>A string is truthy when it is not empty.\<close>

definition truthy :: "jsstring \<Rightarrow> bool" where
  "truthy s = (s \<noteq> [])"

text \<open>White space and line terminators, as \<open>String.prototype.trim\<close> removes them.\<close>

definition isWhiteSpace :: "jschar \<Rightarrow> bool" where
  "isWhiteSpace c =
     (c = 0x09 \<or> c = 0x0A \<or> c = 0x0B \<or> c = 0x0C \<or> c = 0x0D \<or> c = 0x20 \<or> c = 0xA0
      \<or> c = 0x1680 \<or> (0x2000 \<le> c \<and> c \<le> 0x200A) \<or> c = 0x2028 \<or> c = 0x2029
      \<or> c = 0x202F \<or> c = 0x205F \<or> c = 0x3000 \<or> c = 0xFEFF)"

definition trimStart :: "jsstring \<Rightarrow> jsstring" where
  "trimStart s = dropWhile isWhiteSpace s"

definition trim :: "jsstring \<Rightarrow> jsstring" where
  "trim s = rev (dropWhile isWhiteSpace (rev (dropWhile isWhiteSpace s)))"

text \<open>\<open>s.split(sep)\<close> for a separator of one code unit: never an empty array.\<close>

fun jsSplit :: "jschar \<Rightarrow> jsstring \<Rightarrow> jsstring list" where
  "jsSplit sep [] = [[]]"
| "jsSplit sep (c # cs) =
     (if c = sep then [] # jsSplit sep cs
      else (case jsSplit sep cs of
              [] \<Rightarrow> [[c]]
            | x # xs \<Rightarrow> (c # x) # xs))"

definition startsWith :: "jsstring \<Rightarrow> jsstring \<Rightarrow> bool" where
  "startsWith s p = prefix p s"

text \<open>\<open>s.replace(a, b)\<close> with a string pattern of one code unit: the first occurrence only.\<close>

fun replaceFirst :: "jschar \<Rightarrow> jschar \<Rightarrow> jsstring \<Rightarrow> jsstring" where
  "replaceFirst a b [] = []"
| "replaceFirst a b (c # cs) = (if c = a then b # cs else c # replaceFirst a b cs)"

subsection \<open>Numbers\<close>

text \<open>
  A JavaScript number read from text: \<open>NaN\<close>, an infinity, or the decimal
  \<open>(-1)^neg * mantissa * 10^exponent\<close> the text denotes (the value before it is
  rounded to a double).
\<close>

datatype jsnumber = NaN | Infinite bool | Finite bool nat int

definition isDigit :: "jschar \<Rightarrow> bool" where
  "isDigit c = (0x30 \<le> c \<and> c \<le> 0x39)"

definition isHexDigit :: "jschar \<Rightarrow> bool" where
  "isHexDigit c = (isDigit c \<or> (0x41 \<le> c \<and> c \<le> 0x46) \<or> (0x61 \<le> c \<and> c \<le> 0x66))"

definition digitVal :: "jschar \<Rightarrow> nat" where
  "digitVal c =
     (if isDigit c then unat c - 0x30
      else if 0x41 \<le> c \<and> c \<le> 0x46 then unat c - 0x41 + 10
      else unat c - 0x61 + 10)"

definition digitsVal :: "nat \<Rightarrow> jsstring \<Rightarrow> nat" where
  "digitsVal radix ds = foldl (\<lambda>acc d. acc * radix + digitVal d) 0 ds"

text \<open>An optional sign: whether it is a minus, and the rest of the text.\<close>

fun takeSign :: "jsstring \<Rightarrow> bool \<times> jsstring" where
  "takeSign [] = (False, [])"
| "takeSign (c # cs) =
     (if c = 0x2D then (True, cs) else if c = 0x2B then (False, cs) else (False, c # cs))"

text \<open>
  \<open>parseInt(s)\<close> with no radix: leading white space, a sign, an optional
  \<open>0x\<close> prefix, then the longest run of digits; \<open>None\<close> is NaN. The value is
  the integer the digits denote.
\<close>

definition parseInt :: "jsstring \<Rightarrow> int option" where
  "parseInt s =
     (let (neg, t) = takeSign (trimStart s);
          hex = (startsWith t (js ''0x'') \<or> startsWith t (js ''0X''));
          body = (if hex then drop 2 t else t);
          ds = (if hex then takeWhile isHexDigit body else takeWhile isDigit body);
          v = int (digitsVal (if hex then 16 else 10) ds)
      in if ds = [] then None else Some (if neg then - v else v))"

text \<open>\<open>parseInt(s) || 0\<close>: NaN and zero both give 0.\<close>

definition parseIntOr0 :: "jsstring \<Rightarrow> int" where
  "parseIntOr0 s = (case parseInt s of None \<Rightarrow> 0 | Some v \<Rightarrow> v)"

text \<open>The exponent part \<open>e\<close>, sign, digits; it counts only when a digit follows.\<close>

definition exponentPart :: "jsstring \<Rightarrow> int" where
  "exponentPart s =
     (case s of
        [] \<Rightarrow> 0
      | c # cs \<Rightarrow>
          if c = 0x65 \<or> c = 0x45 then
            (let (neg, t) = takeSign cs;
                 ds = takeWhile isDigit t
             in if ds = [] then 0
                else if neg then - int (digitsVal 10 ds) else int (digitsVal 10 ds))
          else 0)"

text \<open>
  \<open>parseFloat(s)\<close>: leading white space is skipped, then the longest prefix that is
  a decimal literal is read; NaN when there is none.
\<close>

definition parseFloat :: "jsstring \<Rightarrow> jsnumber" where
  "parseFloat s =
     (let (neg, t) = takeSign (trimStart s)
      in if startsWith t (js ''Infinity'') then Infinite neg
         else
           (let ip = takeWhile isDigit t;
                r1 = dropWhile isDigit t;
                dot = (r1 \<noteq> [] \<and> hd r1 = 0x2E);
                fp = (if dot then takeWhile isDigit (tl r1) else []);
                r2 = (if dot then dropWhile isDigit (tl r1) else r1)
            in if ip = [] \<and> fp = [] then NaN
               else Finite neg (digitsVal 10 (ip @ fp)) (exponentPart r2 - int (length fp))))"

subsection \<open>Regular expressions of the text normalizer\<close>

text \<open>
  The patterns of \<open>convertToUTF8\<close> use literal code units, one optional code unit
  (\<open>h?\<close>) and the word boundary \<open>\b\<close>. A word character is an ASCII letter, a
  digit or the underscore.
\<close>

datatype ritem = Lit jschar | Opt jschar | WordB

definition isWordChar :: "jschar \<Rightarrow> bool" where
  "isWordChar c =
     ((0x41 \<le> c \<and> c \<le> 0x5A) \<or> (0x61 \<le> c \<and> c \<le> 0x7A) \<or> (0x30 \<le> c \<and> c \<le> 0x39)
      \<or> c = 0x5F)"

definition wordBefore :: "jschar option \<Rightarrow> bool" where
  "wordBefore prev = (case prev of None \<Rightarrow> False | Some c \<Rightarrow> isWordChar c)"

definition wordAt :: "jsstring \<Rightarrow> bool" where
  "wordAt s = (case s of [] \<Rightarrow> False | c # cs \<Rightarrow> isWordChar c)"

text \<open>
  \<open>matchHere p prev s\<close>: the pattern tried at the start of \<open>s\<close>, with \<open>prev\<close> the
  code unit before it; the length of the match, the optional item greedy with
  backtracking.
\<close>

fun matchHere :: "ritem list \<Rightarrow> jschar option \<Rightarrow> jsstring \<Rightarrow> nat option" where
  "matchHere [] prev s = Some 0"
| "matchHere (WordB # p) prev s =
     (if wordBefore prev \<noteq> wordAt s then matchHere p prev s else None)"
| "matchHere (Lit c # p) prev [] = None"
| "matchHere (Lit c # p) prev (d # s) =
     (if c = d then map_option Suc (matchHere p (Some d) s) else None)"
| "matchHere (Opt c # p) prev [] = matchHere p prev []"
| "matchHere (Opt c # p) prev (d # s) =
     (if c = d then
        (case matchHere p (Some d) s of
           Some n \<Rightarrow> Some (Suc n)
         | None \<Rightarrow> matchHere p prev (d # s))
      else matchHere p prev (d # s))"

text \<open>
  \<open>s.replace(regex, r)\<close> with the global flag, for a matcher \<open>m\<close>: matches are taken
  left to right and do not overlap; after an empty match the scan moves on by one
  code unit.
\<close>

function replaceWith ::
  "(jschar option \<Rightarrow> jsstring \<Rightarrow> nat option) \<Rightarrow> jsstring \<Rightarrow> jschar option \<Rightarrow> jsstring \<Rightarrow> jsstring"
where
  "replaceWith m r prev [] = (case m prev [] of None \<Rightarrow> [] | Some n \<Rightarrow> r)"
| "replaceWith m r prev (c # cs) =
     (case m prev (c # cs) of
        None \<Rightarrow> c # replaceWith m r (Some c) cs
      | Some 0 \<Rightarrow> r @ c # replaceWith m r (Some c) cs
      | Some (Suc n) \<Rightarrow> r @ replaceWith m r (Some (last (take (Suc n) (c # cs)))) (drop n cs))"
  by pat_completeness auto
termination
  by (relation "measure (\<lambda>(m, r, prev, s). length s)") auto

definition replaceAll :: "ritem list \<Rightarrow> jsstring \<Rightarrow> jsstring \<Rightarrow> jsstring" where
  "replaceAll p r s = replaceWith (matchHere p) r None s"

text \<open>\<open>new RegExp(wrong, 'g')\<close> for a string without special characters.\<close>

definition literal :: "jsstring \<Rightarrow> ritem list" where
  "literal w = map Lit w"

text \<open>\<open>/\bw\b/\<close>\<close>

definition wholeWord :: "jsstring \<Rightarrow> ritem list" where
  "wholeWord w = WordB # map Lit w @ [WordB]"

section \<open>Text Normalizer\<close>

definition encodingMap :: "(jsstring \<times> jsstring) list" where
  "encodingMap =
     [([0xC3, 0xA1], [0xE1]),
      ([0xC3, 0xA9], [0xE9]),
      ([0xC3, 0xAD], [0xED]),
      ([0xC3, 0xB3], [0xF3]),
      ([0xC3, 0xBA], [0xFA]),
      ([0xC3, 0x81], [0xC1]),
      ([0xC3, 0x89], [0xC9]),
      ([0xC3, 0x8D], [0xCD]),
      ([0xC3, 0x93], [0xD3]),
      ([0xC3, 0x9A], [0xDA]),
      ([0xC3, 0xB1], [0xF1]),
      ([0xC3, 0x91], [0xD1]),
      ([0xC3, 0xBC], [0xFC]),
      ([0xC3, 0x9C], [0xDC])]"

definition locationPatterns :: "(ritem list \<times> jsstring) list" where
  "locationPatterns =
     [(wholeWord (js ''Len''), js ''Le'' @ [0xF3] @ js ''n''),
      (wholeWord (js ''Nuevo Len''), js ''Nuevo Le'' @ [0xF3] @ js ''n''),
      (wholeWord (js ''Mxico''), js ''M'' @ [0xE9] @ js ''xico''),
      (wholeWord (js ''Ciudad de Mxico''), js ''Ciudad de M'' @ [0xE9] @ js ''xico''),
      (wholeWord (js ''Qutaro''), js ''Quer'' @ [0xE9] @ js ''taro''),
      (wholeWord (js ''Quertaro''), js ''Quer'' @ [0xE9] @ js ''taro''),
      (wholeWord (js ''Zacatecas''), js ''Zacatecas''),
      (wholeWord (js ''Jurez''), js ''Ju'' @ [0xE1] @ js ''rez''),
      (wholeWord (js ''Benito Jurez''), js ''Benito Ju'' @ [0xE1] @ js ''rez''),
      (wholeWord (js ''Acapulco de Jurez''), js ''Acapulco de Ju'' @ [0xE1] @ js ''rez''),
      (wholeWord (js ''Baha''), js ''Bah'' @ [0xED] @ js ''a''),
      (WordB # map Lit (js ''Ba'') @ Opt 0x68 # map Lit (js ''a de Banderas'') @ [WordB],
         js ''Bah'' @ [0xED] @ js ''a de Banderas''),
      (wholeWord (js ''Gutrrez''), js ''Guti'' @ [0xE9] @ js ''rrez''),
      (wholeWord (js ''Tuxtla Gutrrez''), js ''Tuxtla Guti'' @ [0xE9] @ js ''rrez''),
      (wholeWord (js ''Culiacn''), js ''Culiac'' @ [0xE1] @ js ''n''),
      (wholeWord (js ''Garca''), js ''Garc'' @ [0xED] @ js ''a''),
      (wholeWord (js ''ZM Qutaro''), js ''ZM Quer'' @ [0xE9] @ js ''taro''),
      (wholeWord (js ''ZM Quertaro''), js ''ZM Quer'' @ [0xE9] @ js ''taro''),
      (wholeWord (js ''ZM Len''), js ''ZM Le'' @ [0xF3] @ js ''n''),
      (wholeWord (js ''ZM Mxico''), js ''ZM M'' @ [0xE9] @ js ''xico''),
      (wholeWord (js ''ZM Valle Mxico''), js ''ZM Valle M'' @ [0xE9] @ js ''xico'')]"

text \<open>
  \<open>convertToUTF8\<close>: the encoding table first, entry by entry, then the place-name
  patterns, each replaced everywhere. No step can throw, so the handler that returns
  the text unchanged is never entered.
\<close>

definition convertToUTF8 :: "jsstring \<Rightarrow> jsstring" where
  "convertToUTF8 text =
     (if \<not> truthy text then text
      else foldl (\<lambda>converted (p, r). replaceAll p r converted)
             (foldl (\<lambda>converted (wrong, correct). replaceAll (literal wrong) correct converted)
                text encodingMap)
             locationPatterns)"

definition normalizeText :: "jsstring \<Rightarrow> jsstring" where
  "normalizeText text = (if \<not> truthy text then text else convertToUTF8 text)"

section \<open>Row Parser\<close>

record SHFDataRow =
  consecutivo :: int
  global :: jsstring
  estado :: jsstring
  municipio :: jsstring
  trimestre :: int
  anio :: int
  indice :: jsstring

text \<open>\<open>x?.trim() || d\<close> for a column that exists.\<close>

definition trimOr :: "jsstring \<Rightarrow> jsstring \<Rightarrow> jsstring" where
  "trimOr d x = (if truthy (trim x) then trim x else d)"

text \<open>The row built from the columns of a line with at least 7 of them.\<close>

definition rowOfColumns :: "jsstring list \<Rightarrow> SHFDataRow" where
  "rowOfColumns columns =
     \<lparr> consecutivo = parseIntOr0 (columns ! 0),
       global = normalizeText (trimOr [] (columns ! 1)),
       estado = normalizeText (trimOr [] (columns ! 2)),
       municipio = normalizeText (trimOr [] (columns ! 3)),
       trimestre = parseIntOr0 (columns ! 4),
       anio = parseIntOr0 (columns ! 5),
       indice = replaceFirst 0x2C 0x2E (trimOr (js ''0'') (columns ! 6)) \<rparr>"

text \<open>One pass of the loop body: the rows a line adds (none or one).\<close>

definition parseLine :: "jsstring \<Rightarrow> SHFDataRow list" where
  "parseLine l =
     (let line = trim l in
      if \<not> truthy line then []
      else (let columns = jsSplit 0x3B line in
            if length columns < 7 then [] else [rowOfColumns columns]))"

text \<open>The loop from index 1 over the lines; index 0 is the header.\<close>

fun parseLines :: "jsstring list \<Rightarrow> SHFDataRow list \<Rightarrow> SHFDataRow list" where
  "parseLines [] rows = rows"
| "parseLines (l # ls) rows = parseLines ls (rows @ parseLine l)"

definition parseCSV :: "jsstring \<Rightarrow> SHFDataRow list" where
  "parseCSV csvContent = parseLines (drop 1 (jsSplit 0x0A csvContent)) []"

section \<open>Row Classifier\<close>

text \<open>\<open>initializePropertyTypeMap\<close>: the fixed table from category label to code.\<close>

definition propertyTypeMap :: "(jsstring \<times> jsstring) list" where
  "propertyTypeMap =
     [(js ''Nueva'', js ''nueva''),
      (js ''Usada'', js ''usada''),
      (js ''Casa sola'', js ''casa_sola''),
      (js ''Casa en condominio - depto.'', js ''condominio''),
      (js ''Media - Residencial'', js ''media_residencial'')]"

definition hasPropertyType :: "jsstring \<Rightarrow> bool" where
  "hasPropertyType g = (map_of propertyTypeMap g \<noteq> None)"

text \<open>The filter of \<open>processCSV\<close> that keeps the residential rows.\<close>

definition isResidential :: "SHFDataRow \<Rightarrow> bool" where
  "isResidential row =
     (global row \<noteq> js ''Economica - Social'' \<and>
      (global row = js ''Media - Residencial'' \<or>
       hasPropertyType (global row) \<or>
       global row = js ''Nacional'' \<or>
       startsWith (global row) (js ''ZM '') \<or>
       (truthy (estado row) \<and> trim (estado row) \<noteq> []) \<or>
       (truthy (municipio row) \<and> trim (municipio row) \<noteq> [])))"

text \<open>The key \<open>processLocations\<close> adds to its set for a row, if any.\<close>

definition locationSetKey :: "SHFDataRow \<Rightarrow> jsstring option" where
  "locationSetKey row =
     (if global row = js ''Nacional'' then Some (js ''Nacional|national|'')
      else if startsWith (global row) (js ''ZM '') then Some (global row @ js ''|metro_zone|'')
      else if truthy (estado row) \<and> trim (estado row) \<noteq> [] \<and> \<not> truthy (municipio row)
        then Some (estado row @ js ''|state|'')
      else if truthy (estado row) \<and> trim (estado row) \<noteq> [] \<and>
              truthy (municipio row) \<and> trim (municipio row) \<noteq> []
        then Some (municipio row @ js ''|municipality|'' @ estado row)
      else if hasPropertyType (global row) \<or> global row = js ''Media - Residencial''
        then Some (js ''Nacional|national|'')
      else None)"

text \<open>
  The key \<open>processPriceData\<close> computes for a row; \<open>None\<close> is the branch that skips
  the row.
\<close>

definition priceLocationKey :: "SHFDataRow \<Rightarrow> jsstring option" where
  "priceLocationKey row =
     (if global row = js ''Nacional'' then Some (js ''Nacional|national|'')
      else if startsWith (global row) (js ''ZM '') then Some (global row @ js ''|metro_zone|'')
      else if truthy (estado row) \<and> \<not> truthy (municipio row)
        then Some (estado row @ js ''|state|'')
      else if truthy (estado row) \<and> truthy (municipio row)
        then Some (municipio row @ js ''|municipality|'' @ estado row)
      else None)"

section \<open>The storage collaborator\<close>

type_synonym ident = nat

text \<open>
  A persisted location, as the storage returns it. The column \<open>state\<close> is nullable
  (\<open>state VARCHAR(100)\<close> in the schema of the repository): \<open>None\<close> is the \<open>null\<close>
  the storage returns for a location stored without a state.
\<close>

record Location =
  loc_id :: ident
  loc_type :: jsstring
  loc_name :: jsstring
  loc_state :: "jsstring option"

record ResidentialPropertyType =
  pt_id :: ident
  pt_name :: jsstring

text \<open>
  The location object the processor builds; \<open>None\<close> is a state left \<open>undefined\<close>.
\<close>

record ProcessedLocation =
  pl_type :: jsstring
  pl_name :: jsstring
  pl_state :: "jsstring option"

record ProcessedPriceData =
  location_id :: ident
  property_type_id :: "ident option"
  quarter :: int
  year :: int
  index_value :: jsnumber

datatype logStatus = Processing | Completed | Failed

record DataUploadLog =
  log_id :: ident
  log_filename :: jsstring
  records_processed :: nat
  log_status :: logStatus
  error_message :: "jsstring option"

text \<open>
  An error object, returned by a storage call or thrown: whether it is an instance of
  \<open>Error\<close>, and its message.
\<close>

record errorValue =
  isError :: bool
  message :: jsstring

text \<open>
  What happens to one storage call: it succeeds, it returns \<open>{error}\<close>, or its
  promise rejects.
\<close>

datatype fault = Succeeds | ReturnsError errorValue | Rejects errorValue

text \<open>
  The fate of every storage call of a run: of the reads and inserts of the location
  loop by the position of the location, of the read inside the row loop by the
  position of the row, of the upserts by the batch (counted from 0).
\<close>

record faults =
  createLogFault :: fault
  getLocationsFault :: "nat \<Rightarrow> fault"
  insertLocationFault :: "nat \<Rightarrow> fault"
  propertyTypesFault :: fault
  rowPropertyTypesFault :: "nat \<Rightarrow> fault"
  upsertFault :: "nat \<Rightarrow> fault"
  updateLogFault :: fault

datatype call =
    CreateUploadLog jsstring
  | GetLocations
  | InsertLocation ProcessedLocation
  | GetPropertyTypes
  | UpsertPriceIndices "ProcessedPriceData list"
  | UpdateUploadLog ident logStatus nat

text \<open>
  The persisted tables, the next identifier the storage assigns, and the calls issued so
  far with their fate.
\<close>

record storage =
  locations :: "Location list"
  property_types :: "ResidentialPropertyType list"
  price_indices :: "ProcessedPriceData list"
  upload_logs :: "DataUploadLog list"
  next_id :: ident
  calls :: "(call \<times> fault) list"

definition issue :: "call \<Rightarrow> fault \<Rightarrow> storage \<Rightarrow> storage" where
  "issue c flt st = st\<lparr>calls := calls st @ [(c, flt)]\<rparr>"

text \<open>
  Modelled from the spec: the insert into \<open>data_upload_logs\<close> of the storage
  collaborator (\<open>createUploadLog(filename) \<rightarrow> LogEntry\<close>); the new entry has the
  fields the processor passes, and a call that fails changes no table.
\<close>

definition createUploadLog :: "fault \<Rightarrow> jsstring \<Rightarrow> storage \<Rightarrow> storage" where
  "createUploadLog flt fname st =
     (case flt of
        Succeeds \<Rightarrow>
          (issue (CreateUploadLog fname) flt st)
            \<lparr>upload_logs := upload_logs st @
               [\<lparr>log_id = next_id st, log_filename = fname, records_processed = 0,
                 log_status = Processing, error_message = None\<rparr>],
             next_id := Suc (next_id st)\<rparr>
      | _ \<Rightarrow> issue (CreateUploadLog fname) flt st)"

text \<open>
  Modelled from the spec: the update of one entry of \<open>data_upload_logs\<close>
  (\<open>updateUploadLog(id, status, recordsProcessed)\<close>).
\<close>

definition updateUploadLog :: "fault \<Rightarrow> ident \<Rightarrow> logStatus \<Rightarrow> nat \<Rightarrow> storage \<Rightarrow> storage" where
  "updateUploadLog flt i s n st =
     (case flt of
        Succeeds \<Rightarrow>
          (issue (UpdateUploadLog i s n) flt st)
            \<lparr>upload_logs :=
               map (\<lambda>e. if log_id e = i then e\<lparr>log_status := s, records_processed := n\<rparr> else e)
                 (upload_logs st)\<rparr>
      | _ \<Rightarrow> issue (UpdateUploadLog i s n) flt st)"

text \<open>
  Modelled from the spec: the insert into \<open>locations\<close>
  (\<open>createLocation(type, name, state?) \<rightarrow> Location\<close>) with a newly assigned identifier.
  A state left \<open>undefined\<close> is not sent, and the nullable column holds NULL.
\<close>

definition insertLocation :: "fault \<Rightarrow> ProcessedLocation \<Rightarrow> storage \<Rightarrow> storage" where
  "insertLocation flt l st =
     (case flt of
        Succeeds \<Rightarrow>
          (issue (InsertLocation l) flt st)
            \<lparr>locations := locations st @
               [\<lparr>loc_id = next_id st, loc_type = pl_type l, loc_name = pl_name l,
                 loc_state = pl_state l\<rparr>],
             next_id := Suc (next_id st)\<rparr>
      | _ \<Rightarrow> issue (InsertLocation l) flt st)"

text \<open>
  Modelled from the spec: the upsert keyed on (location, property type, quarter, year),
  which replaces the row on conflict and inserts it otherwise.
\<close>

definition sameKey :: "ProcessedPriceData \<Rightarrow> ProcessedPriceData \<Rightarrow> bool" where
  "sameKey a b =
     (location_id a = location_id b \<and> property_type_id a = property_type_id b \<and>
      quarter a = quarter b \<and> year a = year b)"

fun upsertOne :: "ProcessedPriceData \<Rightarrow> ProcessedPriceData list \<Rightarrow> ProcessedPriceData list" where
  "upsertOne r [] = [r]"
| "upsertOne r (x # xs) = (if sameKey r x then r # xs else x # upsertOne r xs)"

definition upsertBatch :: "ProcessedPriceData list \<Rightarrow> ProcessedPriceData list \<Rightarrow> ProcessedPriceData list" where
  "upsertBatch batch table = foldl (\<lambda>t r. upsertOne r t) table batch"

definition upsertPriceIndices :: "fault \<Rightarrow> ProcessedPriceData list \<Rightarrow> storage \<Rightarrow> storage" where
  "upsertPriceIndices flt batch st =
     (case flt of
        Succeeds \<Rightarrow>
          (issue (UpsertPriceIndices batch) flt st)
            \<lparr>price_indices := upsertBatch batch (price_indices st)\<rparr>
      | _ \<Rightarrow> issue (UpsertPriceIndices batch) flt st)"

section \<open>Location Resolver\<close>

text \<open>A JavaScript \<open>Set\<close> keeps its elements in the order of first insertion.\<close>

definition setAdd :: "'a list \<Rightarrow> 'a \<Rightarrow> 'a list" where
  "setAdd xs x = (if x \<in> set xs then xs else xs @ [x])"

definition locationSet :: "SHFDataRow list \<Rightarrow> jsstring list" where
  "locationSet rows =
     foldl (\<lambda>s row. case locationSetKey row of None \<Rightarrow> s | Some k \<Rightarrow> setAdd s k) [] rows"

text \<open>
  The location object built from a key: the key is split on the bar and the first
  three parts are the name, the type and the state. Every key of the set has two
  bars, so parts 1 and 2 exist.
\<close>

definition locationOfKey :: "jsstring \<Rightarrow> ProcessedLocation" where
  "locationOfKey locationKey =
     (let parts = jsSplit 0x7C locationKey;
          name = parts ! 0;
          type = parts ! 1;
          state = parts ! 2
      in \<lparr> pl_type = type,
           pl_name = normalizeText (trim name),
           pl_state = (if truthy state then Some (normalizeText state) else None) \<rparr>)"

text \<open>The key under which a resolved location is stored in the location map.\<close>

definition mapKey :: "ProcessedLocation \<Rightarrow> jsstring" where
  "mapKey l =
     pl_name l @ js ''|'' @ pl_type l @ js ''|'' @ (case pl_state l of None \<Rightarrow> [] | Some s \<Rightarrow> s)"

text \<open>
  The test of \<open>find\<close>: three strict equalities. The state of a persisted location
  is \<open>null\<close> or a string, the state of the location object is \<open>undefined\<close> or a
  string, and \<open>null === undefined\<close> is false: the states are equal only when both are
  the same string.
\<close>

definition matches :: "ProcessedLocation \<Rightarrow> Location \<Rightarrow> bool" where
  "matches l loc =
     (loc_name loc = pl_name l \<and> loc_type loc = pl_type l \<and>
      (case pl_state l of None \<Rightarrow> False | Some s \<Rightarrow> loc_state loc = Some s))"

text \<open>
  One pass of the loop over the locations: read the persisted locations (the query
  orders them by name, and \<open>find\<close> only accepts rows of one name, so the table order
  decides among them), reuse the first that matches or insert a new one. Any error of
  the two calls is caught and leaves the map as it was.
\<close>

definition resolveLocation ::
  "faults \<Rightarrow> nat \<Rightarrow> ProcessedLocation \<Rightarrow> (jsstring \<rightharpoonup> ident) \<Rightarrow> storage
     \<Rightarrow> (jsstring \<rightharpoonup> ident) \<times> storage"
where
  "resolveLocation f i l locationMap st =
     (case getLocationsFault f i of
        Succeeds \<Rightarrow>
          (let st1 = issue GetLocations Succeeds st in
           case find (matches l) (locations st1) of
             Some existing \<Rightarrow> (locationMap(mapKey l \<mapsto> loc_id existing), st1)
           | None \<Rightarrow>
               (case insertLocationFault f i of
                  Succeeds \<Rightarrow>
                    (locationMap(mapKey l \<mapsto> next_id st1), insertLocation Succeeds l st1)
                | flt \<Rightarrow> (locationMap, insertLocation flt l st1)))
      | flt \<Rightarrow> (locationMap, issue GetLocations flt st))"

fun resolveLocations ::
  "faults \<Rightarrow> nat \<Rightarrow> ProcessedLocation list \<Rightarrow> (jsstring \<rightharpoonup> ident) \<Rightarrow> storage
     \<Rightarrow> (jsstring \<rightharpoonup> ident) \<times> storage"
where
  "resolveLocations f i [] locationMap st = (locationMap, st)"
| "resolveLocations f i (l # ls) locationMap st =
     (case resolveLocation f i l locationMap st of
        (locationMap', st') \<Rightarrow> resolveLocations f (Suc i) ls locationMap' st')"

definition processLocations ::
  "faults \<Rightarrow> SHFDataRow list \<Rightarrow> storage \<Rightarrow> (jsstring \<rightharpoonup> ident) \<times> storage"
where
  "processLocations f rows st =
     resolveLocations f 0 (map locationOfKey (locationSet rows)) Map.empty st"

section \<open>Price Record Builder and Batch Persister\<close>

text \<open>\<open>processPropertyTypes\<close>: one read; a returned error is rethrown with a prefix.\<close>

definition processPropertyTypes :: "faults \<Rightarrow> storage \<Rightarrow> (errorValue + unit) \<times> storage" where
  "processPropertyTypes f st =
     (case propertyTypesFault f of
        Succeeds \<Rightarrow> (Inr (), issue GetPropertyTypes Succeeds st)
      | ReturnsError e \<Rightarrow>
          (Inl \<lparr>isError = True, message = js ''Failed to get property types: '' @ message e\<rparr>,
           issue GetPropertyTypes (ReturnsError e) st)
      | Rejects e \<Rightarrow> (Inl e, issue GetPropertyTypes (Rejects e) st))"

text \<open>
  The body of the row loop of \<open>processPriceData\<close>: the record the row adds, if any.
  A rejected read of the property types is caught and skips the row; a returned error
  leaves the property type undefined.
\<close>

definition preparePriceRow ::
  "faults \<Rightarrow> nat \<Rightarrow> SHFDataRow \<Rightarrow> (jsstring \<rightharpoonup> ident) \<Rightarrow> storage
     \<Rightarrow> ProcessedPriceData option \<times> storage"
where
  "preparePriceRow f i row locationMap st =
     (case priceLocationKey row of
        None \<Rightarrow> (None, st)
      | Some locationKey \<Rightarrow>
          (case locationMap locationKey of
             None \<Rightarrow> (None, st)
           | Some locationId \<Rightarrow>
               (let priceData = (\<lambda>propertyTypeId.
                      \<lparr> location_id = locationId, property_type_id = propertyTypeId,
                        quarter = trimestre row, year = anio row,
                        index_value = parseFloat (indice row) \<rparr>)
                in case map_of propertyTypeMap (global row) of
                     None \<Rightarrow> (Some (priceData None), st)
                   | Some propertyTypeName \<Rightarrow>
                       (case rowPropertyTypesFault f i of
                          Succeeds \<Rightarrow>
                            (Some (priceData
                               (map_option pt_id
                                  (find (\<lambda>pt. pt_name pt = propertyTypeName) (property_types st)))),
                             issue GetPropertyTypes Succeeds st)
                        | ReturnsError e \<Rightarrow>
                            (Some (priceData None), issue GetPropertyTypes (ReturnsError e) st)
                        | Rejects e \<Rightarrow> (None, issue GetPropertyTypes (Rejects e) st)))))"

fun preparePriceData ::
  "faults \<Rightarrow> nat \<Rightarrow> SHFDataRow list \<Rightarrow> (jsstring \<rightharpoonup> ident) \<Rightarrow> ProcessedPriceData list
     \<Rightarrow> storage \<Rightarrow> ProcessedPriceData list \<times> storage"
where
  "preparePriceData f i [] locationMap priceDataToInsert st = (priceDataToInsert, st)"
| "preparePriceData f i (row # rows) locationMap priceDataToInsert st =
     (case preparePriceRow f i row locationMap st of
        (None, st') \<Rightarrow> preparePriceData f (Suc i) rows locationMap priceDataToInsert st'
      | (Some priceData, st') \<Rightarrow>
          preparePriceData f (Suc i) rows locationMap (priceDataToInsert @ [priceData]) st')"

definition batchSize :: nat where
  "batchSize = 1000"

text \<open>\<open>xs.slice(i, j)\<close> for \<open>0 \<le> i \<le> j\<close>.\<close>

definition slice :: "nat \<Rightarrow> nat \<Rightarrow> 'a list \<Rightarrow> 'a list" where
  "slice i j xs = take (j - i) (drop i xs)"

text \<open>
  The batch loop: the upsert of each batch either succeeds or fails (a returned error
  and a rejection are both only logged), and the loop goes on.
\<close>

function persistBatches :: "faults \<Rightarrow> nat \<Rightarrow> ProcessedPriceData list \<Rightarrow> storage \<Rightarrow> storage" where
  "persistBatches f i priceDataToInsert st =
     (if i < length priceDataToInsert then
        persistBatches f (i + batchSize) priceDataToInsert
          (upsertPriceIndices (upsertFault f (i div batchSize))
             (slice i (i + batchSize) priceDataToInsert) st)
      else st)"
  by pat_completeness auto
termination
  by (relation "measure (\<lambda>(f, i, xs, st). length xs - i)") (auto simp: batchSize_def)

declare persistBatches.simps [simp del]

definition processPriceData ::
  "faults \<Rightarrow> SHFDataRow list \<Rightarrow> (jsstring \<rightharpoonup> ident) \<Rightarrow> storage
     \<Rightarrow> ProcessedPriceData list \<times> storage"
where
  "processPriceData f rows locationMap st =
     (case preparePriceData f 0 rows locationMap [] st of
        (priceDataToInsert, st') \<Rightarrow> (priceDataToInsert, persistBatches f 0 priceDataToInsert st'))"

section \<open>Upload Orchestrator\<close>

record IngestResult =
  success :: bool
  recordsProcessed :: nat
  error :: "jsstring option"

text \<open>
  The body of the \<open>try\<close> of \<open>processCSV\<close>: \<open>Inl\<close> is the value thrown, \<open>Inr\<close> the
  number of price records prepared.
\<close>

definition processCSVBody ::
  "faults \<Rightarrow> jsstring \<Rightarrow> jsstring \<Rightarrow> storage \<Rightarrow> (errorValue + nat) \<times> storage"
where
  "processCSVBody f csvContent fname st =
     (case createLogFault f of
        Rejects e \<Rightarrow> (Inl e, createUploadLog (Rejects e) fname st)
      | ReturnsError e \<Rightarrow>
          (Inl \<lparr>isError = True, message = js ''Failed to create upload log: '' @ message e\<rparr>,
           createUploadLog (ReturnsError e) fname st)
      | Succeeds \<Rightarrow>
          (let logId = next_id st;
               st1 = createUploadLog Succeeds fname st;
               rows = parseCSV csvContent;
               residentialRows = filter isResidential rows
           in case processLocations f residentialRows st1 of
                (locationMap, st2) \<Rightarrow>
                  (case processPropertyTypes f st2 of
                     (Inl e, st3) \<Rightarrow> (Inl e, st3)
                   | (Inr u, st3) \<Rightarrow>
                       (case processPriceData f residentialRows locationMap st3 of
                          (priceData, st4) \<Rightarrow>
                            (case updateLogFault f of
                               Succeeds \<Rightarrow>
                                 (Inr (length priceData),
                                  updateUploadLog Succeeds logId Completed (length priceData) st4)
                             | ReturnsError e \<Rightarrow>
                                 (Inl e,
                                  updateUploadLog (ReturnsError e) logId Completed
                                    (length priceData) st4)
                             | Rejects e \<Rightarrow>
                                 (Inl e,
                                  updateUploadLog (Rejects e) logId Completed
                                    (length priceData) st4))))))"

text \<open>The \<open>catch\<close> of \<open>processCSV\<close> issues no storage call.\<close>

definition processCSV ::
  "faults \<Rightarrow> jsstring \<Rightarrow> jsstring \<Rightarrow> storage \<Rightarrow> IngestResult \<times> storage"
where
  "processCSV f csvContent fname st =
     (case processCSVBody f csvContent fname st of
        (Inr n, st') \<Rightarrow> (\<lparr>success = True, recordsProcessed = n, error = None\<rparr>, st')
      | (Inl e, st') \<Rightarrow>
          (\<lparr>success = False, recordsProcessed = 0,
            error = Some (if isError e then message e else js ''Unknown error'')\<rparr>, st'))"

subsection \<open>Reading the uploaded file\<close>

text \<open>
  The uploaded file: its name, and what \<open>arrayBuffer()\<close> gives, the bytes or a
  rejection.
\<close>

record File =
  file_name :: jsstring
  file_bytes :: "errorValue + 8 word list"

text \<open>
  \<open>new TextDecoder(label, {fatal: false}).decode(bytes)\<close> is a parameter of the model:
  the decoded text, or the error thrown.
\<close>

type_synonym decoder = "jsstring \<Rightarrow> 8 word list \<Rightarrow> errorValue + jsstring"

definition replacementCharCount :: "jsstring \<Rightarrow> nat" where
  "replacementCharCount s = length (filter (\<lambda>c. c = 0xFFFD) s)"

text \<open>
  The loop over the candidate encodings: the content chosen (empty when the loop ends
  without a clean decoding) and the best content seen.
\<close>

fun tryEncodings :: "decoder \<Rightarrow> 8 word list \<Rightarrow> jsstring list \<Rightarrow> jsstring \<Rightarrow> jsstring \<times> jsstring" where
  "tryEncodings dec buf [] bestContent = ([], bestContent)"
| "tryEncodings dec buf (encoding # encodings) bestContent =
     (case dec encoding buf of
        Inl e \<Rightarrow> tryEncodings dec buf encodings bestContent
      | Inr decoded \<Rightarrow>
          if replacementCharCount decoded = 0 then (decoded, bestContent)
          else tryEncodings dec buf encodings
                 (if \<not> truthy bestContent \<or>
                     replacementCharCount decoded < replacementCharCount bestContent
                  then decoded else bestContent))"

definition decodeContent :: "decoder \<Rightarrow> 8 word list \<Rightarrow> errorValue + jsstring" where
  "decodeContent dec buf =
     (case tryEncodings dec buf [js ''windows-1252'', js ''iso-8859-1'', js ''utf-8''] [] of
        (csvContent, bestContent) \<Rightarrow>
          if \<not> truthy csvContent \<and> truthy bestContent then Inr bestContent
          else if \<not> truthy csvContent then
            (case dec (js ''utf-8'') buf of
               Inr s \<Rightarrow> Inr s
             | Inl encodingError \<Rightarrow> dec (js ''utf-8'') buf)
          else Inr csvContent)"

definition processSHFCSV ::
  "decoder \<Rightarrow> faults \<Rightarrow> File \<Rightarrow> storage \<Rightarrow> IngestResult \<times> storage"
where
  "processSHFCSV dec f file st =
     (case (case file_bytes file of Inl e \<Rightarrow> Inl e | Inr buf \<Rightarrow> decodeContent dec buf) of
        Inr csvContent \<Rightarrow> processCSV f csvContent (file_name file) st
      | Inl e \<Rightarrow>
          (\<lparr>success = False, recordsProcessed = 0,
            error = Some (if isError e then message e else js ''Failed to read file'')\<rparr>, st))"

section \<open>The patterns of the normalizer as alternatives\<close>

text \<open>
  All replacements of \<open>convertToUTF8\<close> in the order they are applied: the entries of
  the encoding table as literal patterns, then the place-name patterns.
\<close>

definition steps :: "(ritem list \<times> jsstring) list" where
  "steps = map (\<lambda>(wrong, correct). (literal wrong, correct)) encodingMap @ locationPatterns"

text \<open>
  A pattern seen as a list of alternative texts, tried in order, with or without word
  boundaries at both ends: \<open>hit\<close> says that the alternative \<open>w\<close> matches at the start of
  \<open>s\<close> after \<open>prev\<close>, \<open>amatch\<close> gives the length of the first alternative that does.
\<close>

definition hit :: "bool \<Rightarrow> jschar option \<Rightarrow> jsstring \<Rightarrow> jsstring \<Rightarrow> bool" where
  "hit B prev s w =
     (prefix w s \<and>
      (if B then wordBefore prev \<noteq> wordAt s \<and>
                 wordBefore (if w = [] then prev else Some (last w)) \<noteq> wordAt (drop (length w) s)
       else True))"

definition amatch :: "bool \<Rightarrow> jsstring list \<Rightarrow> jschar option \<Rightarrow> jsstring \<Rightarrow> nat option" where
  "amatch B ws prev s = map_option length (find (hit B prev s) ws)"

text \<open>The texts a pattern can match, the one with the optional character first.\<close>

fun litsOf :: "ritem list \<Rightarrow> jsstring list" where
  "litsOf [] = [[]]"
| "litsOf (Lit c # p) = map ((#) c) (litsOf p)"
| "litsOf (Opt c # p) = map ((#) c) (litsOf p) @ litsOf p"
| "litsOf (WordB # p) = litsOf p"

definition bounded :: "ritem list \<Rightarrow> bool" where
  "bounded p = (p \<noteq> [] \<and> hd p = WordB)"

text \<open>\<open>quiet m prev s\<close>: the matcher \<open>m\<close> finds nothing at any position of \<open>s\<close>.\<close>

fun quiet :: "(jschar option \<Rightarrow> jsstring \<Rightarrow> nat option) \<Rightarrow> jschar option \<Rightarrow> jsstring \<Rightarrow> bool" where
  "quiet m prev [] = (m prev [] = None)"
| "quiet m prev (c # cs) = (m prev (c # cs) = None \<and> quiet m (Some c) cs)"

text \<open>
  \<open>clash w r\<close>: an occurrence of \<open>w\<close> could overlap an occurrence of \<open>r\<close>, because a
  non-empty end of one is, or begins with, a beginning of the other.
\<close>

definition clash :: "jsstring \<Rightarrow> jsstring \<Rightarrow> bool" where
  "clash w r =
     ((\<exists>w' \<in> set (suffixes w). w' \<noteq> [] \<and> (prefix w' r \<or> prefix r w')) \<or>
      (\<exists>r' \<in> set (suffixes r). r' \<noteq> [] \<and> (prefix w r' \<or> prefix r' w)))"

text \<open>A replacement step in alternative form: boundaries, alternatives, replacing text.\<close>

type_synonym astep = "bool \<times> jsstring list \<times> jsstring"

definition altForm :: "ritem list \<times> jsstring \<Rightarrow> astep" where
  "altForm st = (case st of (p, r) \<Rightarrow> (bounded p, litsOf p, r))"

definition run1 :: "astep \<Rightarrow> jsstring \<Rightarrow> jsstring" where
  "run1 st s = (case st of (B, ws, r) \<Rightarrow> replaceWith (amatch B ws) r None s)"

definition runAll :: "astep list \<Rightarrow> jsstring \<Rightarrow> jsstring" where
  "runAll sts s = foldl (\<lambda>t st. run1 st t) s sts"

text \<open>A step that replaces a text by itself.\<close>

definition identityStep :: "astep \<Rightarrow> bool" where
  "identityStep st = (case st of (B, ws, r) \<Rightarrow> ws = [r])"

text \<open>
  The replacing text and every alternative are not empty, and they begin, and end,
  with the same kind of character (word character or not).
\<close>

definition wellFormed :: "astep \<Rightarrow> bool" where
  "wellFormed st =
     (case st of (B, ws, r) \<Rightarrow>
        r \<noteq> [] \<and>
        (\<forall>w \<in> set ws. w \<noteq> [] \<and> isWordChar (hd w) = isWordChar (hd r) \<and>
                        isWordChar (last w) = isWordChar (last r)))"

text \<open>No alternative of \<open>q\<close> clashes with the replacing text of \<open>p\<close>.\<close>

definition clashFree :: "astep \<Rightarrow> astep \<Rightarrow> bool" where
  "clashFree q p =
     (case q of (Bq, wsq, rq) \<Rightarrow> case p of (Bp, wsp, rp) \<Rightarrow> \<forall>w \<in> set wsq. \<not> clash w rp)"

text \<open>Every step is clash-free with itself and with every step applied after it.\<close>

fun compatible :: "astep list \<Rightarrow> bool" where
  "compatible [] = True"
| "compatible (q # ps) =
     ((identityStep q \<or> (\<forall>p \<in> set (q # ps). identityStep p \<or> clashFree q p)) \<and> compatible ps)"

text \<open>The step \<open>q\<close> would change nothing in \<open>s\<close>.\<close>

definition stable :: "astep \<Rightarrow> jsstring \<Rightarrow> bool" where
  "stable q s = (case q of (B, ws, r) \<Rightarrow> ws = [r] \<or> quiet (amatch B ws) None s)"

section \<open>Views of a run and sample inputs\<close>

text \<open>The upsert calls issued, in order, each with its batch and its fate.\<close>

fun upserts :: "(call \<times> fault) list \<Rightarrow> (ProcessedPriceData list \<times> fault) list" where
  "upserts [] = []"
| "upserts ((UpsertPriceIndices batch, flt) # cs) = (batch, flt) # upserts cs"
| "upserts (c # cs) = upserts cs"

text \<open>The updates of the upload log issued, in order.\<close>

fun logUpdates :: "(call \<times> fault) list \<Rightarrow> (call \<times> fault) list" where
  "logUpdates [] = []"
| "logUpdates ((UpdateUploadLog i s n, flt) # cs) = (UpdateUploadLog i s n, flt) # logUpdates cs"
| "logUpdates (c # cs) = logUpdates cs"

text \<open>The consecutive batches of a list of records: batch \<open>k\<close> starts at \<open>k * batchSize\<close>.\<close>

definition batchesOf :: "'a list \<Rightarrow> 'a list list" where
  "batchesOf xs =
     map (\<lambda>k. slice (k * batchSize) (k * batchSize + batchSize) xs)
       [0 ..< (length xs + batchSize - 1) div batchSize]"

text \<open>The table after the batches whose upsert succeeded were applied, in order.\<close>

definition commitBatches ::
  "(ProcessedPriceData list \<times> fault) list \<Rightarrow> ProcessedPriceData list \<Rightarrow> ProcessedPriceData list"
where
  "commitBatches bs table =
     foldl (\<lambda>t (batch, flt). if flt = Succeeds then upsertBatch batch t else t) table bs"

text \<open>The upserts the batch loop issues from batch \<open>j\<close> on, each with its fate.\<close>

definition attempts ::
  "faults \<Rightarrow> ProcessedPriceData list \<Rightarrow> nat \<Rightarrow> (ProcessedPriceData list \<times> fault) list"
where
  "attempts f xs j =
     map (\<lambda>k. (slice (k * batchSize) (k * batchSize + batchSize) xs, upsertFault f k))
       [j ..< (length xs + batchSize - 1) div batchSize]"

text \<open>A run in which every storage call succeeds.\<close>

definition noFaults :: faults where
  "noFaults =
     \<lparr> createLogFault = Succeeds, getLocationsFault = (\<lambda>i. Succeeds),
       insertLocationFault = (\<lambda>i. Succeeds), propertyTypesFault = Succeeds,
       rowPropertyTypesFault = (\<lambda>i. Succeeds), upsertFault = (\<lambda>i. Succeeds),
       updateLogFault = Succeeds \<rparr>"

definition storageDown :: errorValue where
  "storageDown = \<lparr> isError = False, message = js ''connection lost'' \<rparr>"

text \<open>A storage with the five property types seeded and nothing else.\<close>

definition seededStorage :: storage where
  "seededStorage =
     \<lparr> locations = [],
       property_types =
         [\<lparr>pt_id = 1, pt_name = js ''nueva''\<rparr>, \<lparr>pt_id = 2, pt_name = js ''usada''\<rparr>,
          \<lparr>pt_id = 3, pt_name = js ''casa_sola''\<rparr>, \<lparr>pt_id = 4, pt_name = js ''condominio''\<rparr>,
          \<lparr>pt_id = 5, pt_name = js ''media_residencial''\<rparr>],
       price_indices = [], upload_logs = [], next_id = 100, calls = [] \<rparr>"

text \<open>Runs in which one kind of storage call fails.\<close>

definition upsertsFail :: faults where
  "upsertsFail = noFaults\<lparr>upsertFault := (\<lambda>k. ReturnsError storageDown)\<rparr>"

definition propertyTypesFail :: faults where
  "propertyTypesFail = noFaults\<lparr>propertyTypesFault := ReturnsError storageDown\<rparr>"

definition updateLogFails :: faults where
  "updateLogFails = noFaults\<lparr>updateLogFault := Rejects storageDown\<rparr>"

definition shfFile :: jsstring where
  "shfFile = js ''shf.csv''"

text \<open>What the sample runs create: the national location and its price records.\<close>

definition nacionalLocation :: Location where
  "nacionalLocation =
     \<lparr> loc_id = 101, loc_type = js ''national'', loc_name = js ''Nacional'', loc_state = None \<rparr>"

text \<open>
  The national location as a first resolution of the national key creates it in the
  seeded storage, and the location a second resolution adds.
\<close>

definition firstNational :: Location where
  "firstNational =
     \<lparr> loc_id = 100, loc_type = js ''national'', loc_name = js ''Nacional'', loc_state = None \<rparr>"

definition secondNational :: Location where
  "secondNational =
     \<lparr> loc_id = 101, loc_type = js ''national'', loc_name = js ''Nacional'', loc_state = None \<rparr>"

definition nacionalRecord :: ProcessedPriceData where
  "nacionalRecord =
     \<lparr> location_id = 101, property_type_id = None, quarter = 2, year = 2020,
       index_value = Finite False 15025 (- 2) \<rparr>"

definition badIndexRecord :: ProcessedPriceData where
  "badIndexRecord =
     \<lparr> location_id = 101, property_type_id = None, quarter = 2, year = 2020,
       index_value = NaN \<rparr>"

definition sampleLog :: "logStatus \<Rightarrow> nat \<Rightarrow> DataUploadLog" where
  "sampleLog s n =
     \<lparr> log_id = 100, log_filename = shfFile, records_processed = n, log_status = s,
       error_message = None \<rparr>"

text \<open>The calls every sample run starts with.\<close>

definition sampleCalls :: "(call \<times> fault) list" where
  "sampleCalls =
     [(CreateUploadLog shfFile, Succeeds), (GetLocations, Succeeds),
      (InsertLocation \<lparr>pl_type = js ''national'', pl_name = js ''Nacional'', pl_state = None\<rparr>,
       Succeeds)]"

definition usadaRow :: SHFDataRow where
  "usadaRow =
     \<lparr> consecutivo = 1, global = js ''Usada'', estado = [], municipio = [],
       trimestre = 1, anio = 2020, indice = js ''100.5'' \<rparr>"

definition usadaCSV :: jsstring where
  "usadaCSV = js ''n;g;e;m;t;a;i'' @ [0x0A] @ js ''1;Usada;;;1;2020;100,5''"

definition nacionalRow :: SHFDataRow where
  "nacionalRow =
     \<lparr> consecutivo = 2, global = js ''Nacional'', estado = [], municipio = [],
       trimestre = 2, anio = 2020, indice = js ''150.25'' \<rparr>"

definition nacionalCSV :: jsstring where
  "nacionalCSV = js ''n;g;e;m;t;a;i'' @ [0x0A] @ js ''2;Nacional;;;2;2020;150,25''"

definition badIndexRow :: SHFDataRow where
  "badIndexRow =
     \<lparr> consecutivo = 3, global = js ''Nacional'', estado = [], municipio = [],
       trimestre = 2, anio = 2020, indice = js ''abc'' \<rparr>"

definition badIndexCSV :: jsstring where
  "badIndexCSV = js ''n;g;e;m;t;a;i'' @ [0x0A] @ js ''3;Nacional;;;2;2020;abc''"

section \<open>Verified properties\<close>

subsection \<open>Row Parser\<close>

lemma parseLines_acc: "parseLines ls rows = rows @ concat (map parseLine ls)"
  by (induction ls arbitrary: rows) simp_all

lemma parseLine_cases:
  "parseLine l =
     (if trim l \<noteq> [] \<and> 7 \<le> length (jsSplit 0x3B (trim l))
      then [rowOfColumns (jsSplit 0x3B (trim l))] else [])"
  by (simp add: parseLine_def truthy_def Let_def not_less)

lemma concat_parseLine:
  "concat (map parseLine ls) =
     map (\<lambda>l. rowOfColumns (jsSplit 0x3B (trim l)))
       (filter (\<lambda>l. trim l \<noteq> [] \<and> 7 \<le> length (jsSplit 0x3B (trim l))) ls)"
  by (induction ls) (simp_all add: parseLine_cases)

text \<open>
  C8. The Row Parser skips the header line (\<open>drop 1\<close> of the lines), skips every line
  that trims to the empty string, drops every line with fewer than 7
  semicolon-separated fields, and turns each remaining line into exactly one Raw Row,
  in order. \<open>parseCSV\<close> has no error result: the body of its \<open>try\<close> only calls
  \<open>parseInt\<close>, \<open>trim\<close>, \<open>replace\<close> and the normalizer, none of which throws.
\<close>

theorem parseCSV_rows:
  "parseCSV csvContent =
     map (\<lambda>l. rowOfColumns (jsSplit 0x3B (trim l)))
       (filter (\<lambda>l. trim l \<noteq> [] \<and> 7 \<le> length (jsSplit 0x3B (trim l)))
          (drop 1 (jsSplit 0x0A csvContent)))"
  by (simp add: parseCSV_def parseLines_acc concat_parseLine)

text \<open>
  A header, a line of 6 fields, a blank line and a line of 7 fields: one row.
\<close>

theorem parseCSV_rows_witness:
  "parseCSV (js ''n;g;e;m;t;a;i'' @ [0x0A] @ js ''1;Nacional;;;2;2020'' @ [0x0A] @ js ''  ''
             @ [0x0A] @ js ''2;Nacional;;;2;2020;150,25'') =
     [\<lparr> consecutivo = 2, global = js ''Nacional'', estado = [], municipio = [],
         trimestre = 2, anio = 2020, indice = js ''150.25'' \<rparr>]"
  unfolding parseCSV_rows by code_simp

subsection \<open>Frame lemmas of the storage calls\<close>


lemma upload_logs_issue [simp]: "upload_logs (issue c flt st) = upload_logs st"
  by (simp add: issue_def)
lemma calls_issue [simp]: "calls (issue c flt st) = calls st @ [(c, flt)]"
  by (simp add: issue_def)
lemma locations_issue [simp]: "locations (issue c flt st) = locations st"
  by (simp add: issue_def)
lemma price_indices_issue [simp]: "price_indices (issue c flt st) = price_indices st"
  by (simp add: issue_def)
lemma property_types_issue [simp]: "property_types (issue c flt st) = property_types st"
  by (simp add: issue_def)
lemma next_id_issue [simp]: "next_id (issue c flt st) = next_id st"
  by (simp add: issue_def)

lemma upload_logs_insertLocation [simp]: "upload_logs (insertLocation flt l st) = upload_logs st"
  by (simp add: insertLocation_def split: fault.splits)
lemma upload_logs_upsert [simp]: "upload_logs (upsertPriceIndices flt b st) = upload_logs st"
  by (simp add: upsertPriceIndices_def split: fault.splits)

lemma logUpdates_append [simp]: "logUpdates (xs @ ys) = logUpdates xs @ logUpdates ys"
  by (induction xs rule: logUpdates.induct) simp_all
lemma upserts_append [simp]: "upserts (xs @ ys) = upserts xs @ upserts ys"
  by (induction xs rule: upserts.induct) simp_all

lemma calls_insertLocation [simp]: "calls (insertLocation flt l st) = calls st @ [(InsertLocation l, flt)]"
  by (simp add: insertLocation_def split: fault.splits)
lemma calls_upsert [simp]: "calls (upsertPriceIndices flt b st) = calls st @ [(UpsertPriceIndices b, flt)]"
  by (simp add: upsertPriceIndices_def split: fault.splits)

text \<open>The location loop touches neither the upload log nor its updates.\<close>

lemma resolveLocation_frame:
  "upload_logs (snd (resolveLocation f i l m st)) = upload_logs st \<and>
   logUpdates (calls (snd (resolveLocation f i l m st))) = logUpdates (calls st) \<and>
   upserts (calls (snd (resolveLocation f i l m st))) = upserts (calls st) \<and>
   price_indices (snd (resolveLocation f i l m st)) = price_indices st \<and> 
   property_types (snd (resolveLocation f i l m st)) = property_types st"
  by (simp add: resolveLocation_def Let_def insertLocation_def split: fault.splits option.splits)

lemma resolveLocations_frame:
  "upload_logs (snd (resolveLocations f i ls m st)) = upload_logs st \<and>
   logUpdates (calls (snd (resolveLocations f i ls m st))) = logUpdates (calls st) \<and>
   upserts (calls (snd (resolveLocations f i ls m st))) = upserts (calls st) \<and>
   price_indices (snd (resolveLocations f i ls m st)) = price_indices st \<and>
   property_types (snd (resolveLocations f i ls m st)) = property_types st"
proof (induction ls arbitrary: i m st)
  case Nil
  show ?case by simp
next
  case (Cons l ls)
  obtain m' st' where r: "resolveLocation f i l m st = (m', st')"
    by (cases "resolveLocation f i l m st")
  from resolveLocation_frame[of f i l m st] r Cons.IH[of "Suc i" m' st']
  show ?case by simp
qed

lemmas processLocations_frame = resolveLocations_frame[of f 0 "map locationOfKey (locationSet rows)" Map.empty st, folded processLocations_def] for f rows st


text \<open>The row loop only reads the property types.\<close>

lemma preparePriceRow_frame:
  "upload_logs (snd (preparePriceRow f i row m st)) = upload_logs st \<and>
   logUpdates (calls (snd (preparePriceRow f i row m st))) = logUpdates (calls st) \<and>
   upserts (calls (snd (preparePriceRow f i row m st))) = upserts (calls st) \<and>
   price_indices (snd (preparePriceRow f i row m st)) = price_indices st"
  by (simp add: preparePriceRow_def Let_def split: fault.splits option.splits)

lemma preparePriceData_frame:
  "upload_logs (snd (preparePriceData f i rows m acc st)) = upload_logs st \<and>
   logUpdates (calls (snd (preparePriceData f i rows m acc st))) = logUpdates (calls st) \<and>
   upserts (calls (snd (preparePriceData f i rows m acc st))) = upserts (calls st) \<and>
   price_indices (snd (preparePriceData f i rows m acc st)) = price_indices st"
proof (induction rows arbitrary: i acc st)
  case Nil
  show ?case by simp
next
  case (Cons row rows)
  obtain r st' where p: "preparePriceRow f i row m st = (r, st')"
    by (cases "preparePriceRow f i row m st")
  from preparePriceRow_frame[of f i row m st] p Cons.IH[of "Suc i" _ st']
  show ?case by (cases r) simp_all
qed

text \<open>The batch loop, from batch \<open>j\<close> on.\<close>

lemma batch_index_less:
  "(j * batchSize < length (xs::'a list)) = (j < (length xs + batchSize - 1) div batchSize)"
proof -
  have b: "0 < batchSize" by (simp add: batchSize_def)
  have "(j < (length xs + batchSize - 1) div batchSize)
          = (Suc j \<le> (length xs + batchSize - 1) div batchSize)"
    by (simp add: Suc_le_eq)
  also have "\<dots> = (Suc j * batchSize \<le> length xs + batchSize - 1)"
    using less_eq_div_iff_mult_less_eq[OF b] by simp
  also have "\<dots> = (j * batchSize < length xs)"
    using b by (simp; arith)
  finally show ?thesis by simp
qed

lemma persistBatches_from:
  "upserts (calls (persistBatches f (j * batchSize) xs st)) = upserts (calls st) @ attempts f xs j \<and>
   price_indices (persistBatches f (j * batchSize) xs st) = commitBatches (attempts f xs j) (price_indices st) \<and>
   upload_logs (persistBatches f (j * batchSize) xs st) = upload_logs st \<and>
   logUpdates (calls (persistBatches f (j * batchSize) xs st)) = logUpdates (calls st)"
proof (induction "(length xs + batchSize - 1) div batchSize - j" arbitrary: j st)
  case 0
  then have nlt: "\<not> j < (length xs + batchSize - 1) div batchSize" by simp
  then have "\<not> j * batchSize < length xs" using batch_index_less[of j xs] by blast
  then have "persistBatches f (j * batchSize) xs st = st"
    by (subst persistBatches.simps) simp
  with nlt show ?case
    by (simp add: attempts_def commitBatches_def)
next
  case (Suc n)
  then have lt: "j < (length xs + batchSize - 1) div batchSize" by simp
  then have lt': "j * batchSize < length xs" by (simp add: batch_index_less)
  have n: "n = (length xs + batchSize - 1) div batchSize - Suc j" using Suc.hyps(2) by simp
  let ?st = "upsertPriceIndices (upsertFault f (j * batchSize div batchSize))
               (slice (j * batchSize) (j * batchSize + batchSize) xs) st"
  have step: "persistBatches f (j * batchSize) xs st = persistBatches f (Suc j * batchSize) xs ?st"
    using lt' by (subst persistBatches.simps) (simp add: add.commute)
  have d: "j * batchSize div batchSize = j" by (simp add: batchSize_def)
  have att: "attempts f xs j =
      (slice (j * batchSize) (j * batchSize + batchSize) xs, upsertFault f j) # attempts f xs (Suc j)"
    using lt by (simp add: attempts_def upt_conv_Cons)
  from Suc.hyps(1)[OF n, of ?st] step d att show ?case
    by (simp add: commitBatches_def upsertPriceIndices_def split: fault.splits)
qed

lemma take_blocks: "concat (map (\<lambda>k. take n (drop (k * n) xs)) [0 ..< m]) = take (m * n) xs"
proof (induction m)
  case 0
  show ?case by simp
next
  case (Suc m)
  have "take (m * n + n) xs = take (m * n) xs @ take n (drop (m * n) xs)"
    by (rule take_add)
  then have "take (Suc m * n) xs = take (m * n) xs @ take n (drop (m * n) xs)"
    by (simp only: mult_Suc add.commute)
  with Suc show ?case by simp
qed

lemma slice_block: "slice (k * batchSize) (k * batchSize + batchSize) xs = take batchSize (drop (k * batchSize) xs)"
  by (simp add: slice_def)

lemma concat_batchesOf: "concat (batchesOf xs) = xs"
proof -
  have "length xs \<le> (length xs + batchSize - 1) div batchSize * batchSize"
    using batch_index_less[of "(length xs + batchSize - 1) div batchSize" xs] by simp
  then show ?thesis
    by (simp add: batchesOf_def slice_block take_blocks)
qed

lemma batchesOf_bounds:
  assumes "b \<in> set (batchesOf xs)"
  shows "b \<noteq> [] \<and> length b \<le> batchSize"
proof -
  from assms obtain k where k: "k < (length xs + batchSize - 1) div batchSize"
    and b: "b = take batchSize (drop (k * batchSize) xs)"
    by (auto simp: batchesOf_def slice_block)
  from k have "k * batchSize < length xs" by (simp add: batch_index_less)
  with b show ?thesis by (simp add: batchSize_def)
qed

lemma attempts_0: "map fst (attempts f xs 0) = batchesOf xs"
  by (simp add: attempts_def batchesOf_def comp_def)


lemma attempts_zip:
  "attempts f xs 0 = zip (batchesOf xs) (map (upsertFault f) [0 ..< length (batchesOf xs)])"
  by (simp add: attempts_def batchesOf_def zip_map_map zip_same_conv_map)

lemma processPriceData_run:
  "fst (processPriceData f rows m st) = fst (preparePriceData f 0 rows m [] st) \<and>
   upserts (calls (snd (processPriceData f rows m st))) =
     upserts (calls st) @ attempts f (fst (preparePriceData f 0 rows m [] st)) 0 \<and>
   price_indices (snd (processPriceData f rows m st)) =
     commitBatches (attempts f (fst (preparePriceData f 0 rows m [] st)) 0) (price_indices st) \<and>
   upload_logs (snd (processPriceData f rows m st)) = upload_logs st \<and>
   logUpdates (calls (snd (processPriceData f rows m st))) = logUpdates (calls st)"
proof -
  obtain recs st1 where p: "preparePriceData f 0 rows m [] st = (recs, st1)"
    by (cases "preparePriceData f 0 rows m [] st")
  from preparePriceData_frame[of f 0 rows m "[]" st] p persistBatches_from[of f 0 recs st1]
  show ?thesis by (simp add: processPriceData_def)
qed

lemma upload_logs_createUploadLog:
  "upload_logs (createUploadLog Succeeds fname st) =
     upload_logs st @ [\<lparr>log_id = next_id st, log_filename = fname, records_processed = 0,
                        log_status = Processing, error_message = None\<rparr>]"
  by (simp add: createUploadLog_def)

lemma calls_createUploadLog:
  "calls (createUploadLog flt fname st) = calls st @ [(CreateUploadLog fname, flt)]"
  by (simp add: createUploadLog_def split: fault.splits)

lemma price_indices_createUploadLog:
  "price_indices (createUploadLog flt fname st) = price_indices st"
  by (simp add: createUploadLog_def split: fault.splits)

lemma calls_updateUploadLog:
  "calls (updateUploadLog flt i s n st) = calls st @ [(UpdateUploadLog i s n, flt)]"
  by (simp add: updateUploadLog_def split: fault.splits)

lemma upload_logs_updateUploadLog_failed:
  "flt \<noteq> Succeeds \<Longrightarrow> upload_logs (updateUploadLog flt i s n st) = upload_logs st"
  by (simp add: updateUploadLog_def split: fault.splits)

lemma price_indices_updateUploadLog:
  "price_indices (updateUploadLog flt i s n st) = price_indices st"
  by (simp add: updateUploadLog_def split: fault.splits)

text \<open>The body of \<open>processCSV\<close> once the upload log entry exists.\<close>

lemma processCSVBody_after_log:
  assumes "createLogFault f = Succeeds"
      and "processLocations f (filter isResidential (parseCSV csv)) (createUploadLog Succeeds fname st)
             = (m, st2)"
      and "processPriceData f (filter isResidential (parseCSV csv)) m (issue GetPropertyTypes Succeeds st2)
             = (priceData, st4)"
  shows "processCSVBody f csv fname st =
     (case propertyTypesFault f of
        ReturnsError e \<Rightarrow>
          (Inl \<lparr>isError = True, message = js ''Failed to get property types: '' @ message e\<rparr>,
           issue GetPropertyTypes (ReturnsError e) st2)
      | Rejects e \<Rightarrow> (Inl e, issue GetPropertyTypes (Rejects e) st2)
      | Succeeds \<Rightarrow>
          (case updateLogFault f of
             Succeeds \<Rightarrow> (Inr (length priceData),
                updateUploadLog Succeeds (next_id st) Completed (length priceData) st4)
           | ReturnsError e \<Rightarrow> (Inl e,
                updateUploadLog (ReturnsError e) (next_id st) Completed (length priceData) st4)
           | Rejects e \<Rightarrow> (Inl e,
                updateUploadLog (Rejects e) (next_id st) Completed (length priceData) st4)))"
  using assms
  by (simp add: processCSVBody_def processPropertyTypes_def Let_def split: fault.splits)

text \<open>What a failed run after the creation of the entry looks like.\<close>

lemma processCSV_failed_after_log:
  assumes c: "createLogFault f = Succeeds"
      and n: "\<not> success (fst (processCSV f csv fname st))"
  shows "\<exists>d c flt pre.
           fst (processCSV f csv fname st) = \<lparr>success = False, recordsProcessed = 0, error = Some d\<rparr> \<and>
           flt \<noteq> Succeeds \<and>
           calls (snd (processCSV f csv fname st)) = pre @ [(c, flt)] \<and>
           (logUpdates (calls (snd (processCSV f csv fname st))) = logUpdates (calls st) \<or>
            logUpdates (calls (snd (processCSV f csv fname st))) = logUpdates (calls st) @ [(c, flt)]) \<and>
           upload_logs (snd (processCSV f csv fname st)) =
             upload_logs st @ [\<lparr>log_id = next_id st, log_filename = fname, records_processed = 0,
                                log_status = Processing, error_message = None\<rparr>]"
proof -
  let ?rows = "filter isResidential (parseCSV csv)"
  let ?st1 = "createUploadLog Succeeds fname st"
  obtain m st2 where pl: "processLocations f ?rows ?st1 = (m, st2)"
    by (cases "processLocations f ?rows ?st1")
  obtain priceData st4 where pp:
    "processPriceData f ?rows m (issue GetPropertyTypes Succeeds st2) = (priceData, st4)"
    by (cases "processPriceData f ?rows m (issue GetPropertyTypes Succeeds st2)")
  note body = processCSVBody_after_log[OF c pl pp]
  have f2: "upload_logs st2 = upload_logs ?st1" "logUpdates (calls st2) = logUpdates (calls ?st1)"
    using processLocations_frame[of f ?rows ?st1] pl by simp_all
  have f4: "upload_logs st4 = upload_logs st2" "logUpdates (calls st4) = logUpdates (calls st2)"
    using processPriceData_run[of f ?rows m "issue GetPropertyTypes Succeeds st2"] pp by simp_all
  have l1: "logUpdates (calls ?st1) = logUpdates (calls st)"
    by (simp add: calls_createUploadLog)
  show ?thesis
  proof (cases "propertyTypesFault f")
    case Succeeds
    note pt = this
    show ?thesis
    proof (cases "updateLogFault f")
      case Succeeds
      with pt body n show ?thesis by (simp add: processCSV_def)
    next
      case (ReturnsError e)
      with pt body f2 f4 l1 show ?thesis
        by (simp add: processCSV_def calls_updateUploadLog upload_logs_updateUploadLog_failed
              upload_logs_createUploadLog)
    next
      case (Rejects e)
      with pt body f2 f4 l1 show ?thesis
        by (simp add: processCSV_def calls_updateUploadLog upload_logs_updateUploadLog_failed
              upload_logs_createUploadLog)
    qed
  next
    case (ReturnsError e)
    with body f2 l1 show ?thesis
      by (simp add: processCSV_def upload_logs_createUploadLog)
  next
    case (Rejects e)
    with body f2 l1 show ?thesis
      by (simp add: processCSV_def upload_logs_createUploadLog)
  qed
qed


subsection \<open>Sample runs\<close>

lemma normalizeText_Usada: "normalizeText (js ''Usada'') = js ''Usada''"
  by code_simp

lemma normalizeText_Nacional: "normalizeText (js ''Nacional'') = js ''Nacional''"
  by code_simp

lemma normalizeText_empty: "normalizeText [] = []"
  by (simp add: normalizeText_def truthy_def)

lemmas parse_defs = parseCSV_def parseLine_def trim_def isWhiteSpace_def truthy_def rowOfColumns_def
  parseIntOr0_def parseInt_def trimStart_def startsWith_def isDigit_def isHexDigit_def digitsVal_def
  digitVal_def trimOr_def js_def normalizeText_empty
  normalizeText_Usada[unfolded js_def, simplified]
  normalizeText_Nacional[unfolded js_def, simplified]

lemmas key_defs = locationSetKey_def priceLocationKey_def hasPropertyType_def propertyTypeMap_def
  startsWith_def truthy_def trim_def isWhiteSpace_def isResidential_def js_def

lemmas run_defs = processCSV_def processCSVBody_def processLocations_def locationSet_def setAdd_def
  locationOfKey_def mapKey_def matches_def resolveLocation_def insertLocation_def issue_def
  createUploadLog_def updateUploadLog_def processPropertyTypes_def processPriceData_def
  preparePriceRow_def upsertPriceIndices_def upsertBatch_def sameKey_def slice_def batchSize_def
  persistBatches.simps parseFloat_def exponentPart_def isDigit_def digitsVal_def digitVal_def
  trimStart_def
  normalizeText_Nacional[unfolded js_def, simplified]

lemmas sample_defs = noFaults_def seededStorage_def shfFile_def nacionalLocation_def
  nacionalRecord_def badIndexRecord_def sampleLog_def sampleCalls_def storageDown_def
  upsertsFail_def propertyTypesFail_def updateLogFails_def

lemma parse_usadaCSV: "parseCSV usadaCSV = [usadaRow]"
  by (simp add: usadaCSV_def usadaRow_def parse_defs)

lemma parse_nacionalCSV: "parseCSV nacionalCSV = [nacionalRow]"
  by (simp add: nacionalCSV_def nacionalRow_def parse_defs)

lemma parse_badIndexCSV: "parseCSV badIndexCSV = [badIndexRow]"
  by (simp add: badIndexCSV_def badIndexRow_def parse_defs)

lemma run_usada:
  "processCSV noFaults usadaCSV shfFile seededStorage =
     (\<lparr>success = True, recordsProcessed = 0, error = None\<rparr>,
      seededStorage\<lparr>locations := [nacionalLocation], upload_logs := [sampleLog Completed 0],
        next_id := 102,
        calls := sampleCalls @ [(GetPropertyTypes, Succeeds),
                                (UpdateUploadLog 100 Completed 0, Succeeds)]\<rparr>)"
  by (simp add: parse_usadaCSV usadaRow_def sample_defs run_defs key_defs)

lemma run_propertyTypesFail:
  "processCSV propertyTypesFail nacionalCSV shfFile seededStorage =
     (\<lparr>success = False, recordsProcessed = 0,
        error = Some (js ''Failed to get property types: connection lost'')\<rparr>,
      seededStorage\<lparr>locations := [nacionalLocation], upload_logs := [sampleLog Processing 0],
        next_id := 102,
        calls := sampleCalls @ [(GetPropertyTypes, ReturnsError storageDown)]\<rparr>)"
  by (simp add: parse_nacionalCSV nacionalRow_def sample_defs run_defs key_defs)

lemma run_updateLogFails:
  "processCSV updateLogFails nacionalCSV shfFile seededStorage =
     (\<lparr>success = False, recordsProcessed = 0, error = Some (js ''Unknown error'')\<rparr>,
      seededStorage\<lparr>locations := [nacionalLocation], price_indices := [nacionalRecord],
        upload_logs := [sampleLog Processing 0], next_id := 102,
        calls := sampleCalls @ [(GetPropertyTypes, Succeeds),
                                (UpsertPriceIndices [nacionalRecord], Succeeds),
                                (UpdateUploadLog 100 Completed 1, Rejects storageDown)]\<rparr>)"
  by (simp add: parse_nacionalCSV nacionalRow_def sample_defs run_defs key_defs)

lemma run_upsertsFail:
  "processCSV upsertsFail nacionalCSV shfFile seededStorage =
     (\<lparr>success = True, recordsProcessed = 1, error = None\<rparr>,
      seededStorage\<lparr>locations := [nacionalLocation], upload_logs := [sampleLog Completed 1],
        next_id := 102,
        calls := sampleCalls @ [(GetPropertyTypes, Succeeds),
                                (UpsertPriceIndices [nacionalRecord], ReturnsError storageDown),
                                (UpdateUploadLog 100 Completed 1, Succeeds)]\<rparr>)"
  by (simp add: parse_nacionalCSV nacionalRow_def sample_defs run_defs key_defs)

lemma run_badIndex:
  "processCSV noFaults badIndexCSV shfFile seededStorage =
     (\<lparr>success = True, recordsProcessed = 1, error = None\<rparr>,
      seededStorage\<lparr>locations := [nacionalLocation], price_indices := [badIndexRecord],
        upload_logs := [sampleLog Completed 1], next_id := 102,
        calls := sampleCalls @ [(GetPropertyTypes, Succeeds),
                                (UpsertPriceIndices [badIndexRecord], Succeeds),
                                (UpdateUploadLog 100 Completed 1, Succeeds)]\<rparr>)"
  by (simp add: parse_badIndexCSV badIndexRow_def sample_defs run_defs key_defs)


subsection \<open>Row Classifier and Price Record Builder\<close>

text \<open>
  C1. The claim is that the key recomputed by \<open>processPriceData\<close> equals the key of
  \<open>processLocations\<close> for every parsed row. At the parsed row of the line
  \<open>1;Usada;;;1;2020;100,5\<close> the Location Resolver derives the national key (its fifth
  case, for a property-type label) and the Price Record Builder derives none: it has
  no fifth case.
\<close>

theorem property_type_row_keys_differ:
  "parseCSV usadaCSV = [usadaRow] \<and>
   locationSetKey usadaRow = Some (js ''Nacional|national|'') \<and>
   priceLocationKey usadaRow = None"
  by (simp add: parse_usadaCSV) (simp add: usadaRow_def key_defs)

text \<open>
  C2. The claim is that a row with category \<open>Usada\<close> and no state or municipality
  gives a price record attached to the national location. The run on that row creates
  the national location, prepares no record, issues no upsert and reports 0 records.
\<close>

theorem property_type_row_gives_no_record:
  "fst (processCSV noFaults usadaCSV shfFile seededStorage) =
     \<lparr>success = True, recordsProcessed = 0, error = None\<rparr> \<and>
   locations (snd (processCSV noFaults usadaCSV shfFile seededStorage)) = [nacionalLocation] \<and>
   price_indices (snd (processCSV noFaults usadaCSV shfFile seededStorage)) = [] \<and>
   upserts (calls (snd (processCSV noFaults usadaCSV shfFile seededStorage))) = []"
  by (simp add: run_usada) (simp add: sample_defs)

text \<open>
  C3. The claim is that a row whose index text does not parse is skipped. The index
  text \<open>abc\<close> does not parse (\<open>parseFloat\<close> gives NaN), and the row of the line
  \<open>3;Nacional;;;2;2020;abc\<close> is not skipped: the run prepares a record with index
  value NaN, counts it, and passes it to the Batch Persister in its only upsert.
\<close>

theorem unparsable_index_counterexample:
  "parseFloat (indice badIndexRow) = NaN \<and>
   fst (processCSV noFaults badIndexCSV shfFile seededStorage) =
     \<lparr>success = True, recordsProcessed = 1, error = None\<rparr> \<and>
   upserts (calls (snd (processCSV noFaults badIndexCSV shfFile seededStorage))) =
     [([badIndexRecord], Succeeds)] \<and>
   index_value badIndexRecord = NaN"
  by (simp add: run_badIndex)
     (simp add: sample_defs badIndexRow_def parseFloat_def js_def trimStart_def isWhiteSpace_def
        startsWith_def isDigit_def)

subsection \<open>Batch Persister\<close>

text \<open>
  C5. When the upload log entry is created, the property types are read and the final
  update of the entry succeeds, then whatever happens to the upserts: the run reports
  success, and as many records as were prepared before the first upsert; the prepared
  records are cut into consecutive non-empty batches of at most 1000; every batch is
  attempted, in order, each with its own fate; and the table holds the batches whose
  upsert succeeded, none undone by a failure before or after it.
\<close>

theorem batch_failures_do_not_fail_run:
  assumes "createLogFault f = Succeeds"
      and "propertyTypesFault f = Succeeds"
      and "updateLogFault f = Succeeds"
  shows "case processLocations f (filter isResidential (parseCSV csv))
                (createUploadLog Succeeds fname st) of
           (locationMap, st2) \<Rightarrow>
             (let prepared = fst (preparePriceData f 0 (filter isResidential (parseCSV csv))
                                    locationMap [] (issue GetPropertyTypes Succeeds st2));
                  tried = zip (batchesOf prepared)
                            (map (upsertFault f) [0 ..< length (batchesOf prepared)])
              in fst (processCSV f csv fname st) =
                   \<lparr>success = True, recordsProcessed = length prepared, error = None\<rparr> \<and>
                 concat (batchesOf prepared) = prepared \<and>
                 (\<forall>b \<in> set (batchesOf prepared). b \<noteq> [] \<and> length b \<le> 1000) \<and>
                 upserts (calls (snd (processCSV f csv fname st))) = upserts (calls st) @ tried \<and>
                 price_indices (snd (processCSV f csv fname st)) =
                   commitBatches tried (price_indices st))"
proof -
  let ?rows = "filter isResidential (parseCSV csv)"
  let ?st1 = "createUploadLog Succeeds fname st"
  obtain m st2 where pl: "processLocations f ?rows ?st1 = (m, st2)"
    by (cases "processLocations f ?rows ?st1")
  let ?st3 = "issue GetPropertyTypes Succeeds st2"
  obtain priceData st4 where pp: "processPriceData f ?rows m ?st3 = (priceData, st4)"
    by (cases "processPriceData f ?rows m ?st3")
  let ?prepared = "fst (preparePriceData f 0 ?rows m [] ?st3)"
  note body = processCSVBody_after_log[OF assms(1) pl pp]
  have f2: "upserts (calls st2) = upserts (calls st)" "price_indices st2 = price_indices st"
    using processLocations_frame[of f ?rows ?st1] pl
    by (simp_all add: calls_createUploadLog price_indices_createUploadLog)
  have f4: "priceData = ?prepared"
    "upserts (calls st4) = upserts (calls st) @ attempts f ?prepared 0"
    "price_indices st4 = commitBatches (attempts f ?prepared 0) (price_indices st)"
    using processPriceData_run[of f ?rows m ?st3] pp f2 by simp_all
  have b: "\<forall>b \<in> set (batchesOf ?prepared). b \<noteq> [] \<and> length b \<le> 1000"
    using batchesOf_bounds[of _ ?prepared] by (simp add: batchSize_def)
  from body assms(2,3) f4 b pl show ?thesis
    by (simp add: processCSV_def attempts_zip concat_batchesOf calls_updateUploadLog
          price_indices_updateUploadLog Let_def)
qed

text \<open>One prepared record, and its upsert fails: the run still succeeds with 1 record.\<close>

theorem batch_failures_do_not_fail_run_witness:
  "createLogFault upsertsFail = Succeeds \<and> propertyTypesFault upsertsFail = Succeeds \<and>
   updateLogFault upsertsFail = Succeeds \<and>
   fst (processCSV upsertsFail nacionalCSV shfFile seededStorage) =
     \<lparr>success = True, recordsProcessed = 1, error = None\<rparr> \<and>
   upserts (calls (snd (processCSV upsertsFail nacionalCSV shfFile seededStorage))) =
     [([nacionalRecord], ReturnsError storageDown)] \<and>
   price_indices (snd (processCSV upsertsFail nacionalCSV shfFile seededStorage)) = []"
proof -
  have a: "createLogFault upsertsFail = Succeeds" by (simp add: upsertsFail_def noFaults_def)
  have b: "propertyTypesFault upsertsFail = Succeeds" by (simp add: upsertsFail_def noFaults_def)
  have c: "updateLogFault upsertsFail = Succeeds" by (simp add: upsertsFail_def noFaults_def)
  have d: "upserts sampleCalls = []" by (simp add: sampleCalls_def)
  from batch_failures_do_not_fail_run[OF a b c, of nacionalCSV shfFile seededStorage] a b c d
  show ?thesis
    by (simp add: run_upsertsFail) (simp add: seededStorage_def)
qed

subsection \<open>Upload Orchestrator\<close>




text \<open>
  C7. When a run fails after the upload log entry was created, the caller gets the
  structured failure result, with 0 records and a message; the call that failed is the
  last storage call of the run, so nothing is issued after it; the only update of the
  entry the run may have issued is that failing call itself; and the entry is left as
  it was created, in state \<open>processing\<close>.
\<close>

theorem failure_is_returned_and_log_untouched:
  assumes "createLogFault f = Succeeds"
      and "\<not> success (fst (processCSV f csv fname st))"
  shows "\<exists>description c flt earlier.
           fst (processCSV f csv fname st) =
             \<lparr>success = False, recordsProcessed = 0, error = Some description\<rparr> \<and>
           flt \<noteq> Succeeds \<and>
           calls (snd (processCSV f csv fname st)) = earlier @ [(c, flt)] \<and>
           (logUpdates (calls (snd (processCSV f csv fname st))) = logUpdates (calls st) \<or>
            logUpdates (calls (snd (processCSV f csv fname st))) =
              logUpdates (calls st) @ [(c, flt)]) \<and>
           upload_logs (snd (processCSV f csv fname st)) =
             upload_logs st @
               [\<lparr>log_id = next_id st, log_filename = fname, records_processed = 0,
                 log_status = Processing, error_message = None\<rparr>]"
  using processCSV_failed_after_log[OF assms] by blast

theorem failure_is_returned_and_log_untouched_witness:
  "createLogFault propertyTypesFail = Succeeds \<and>
   \<not> success (fst (processCSV propertyTypesFail nacionalCSV shfFile seededStorage)) \<and>
   fst (processCSV propertyTypesFail nacionalCSV shfFile seededStorage) =
     \<lparr>success = False, recordsProcessed = 0,
       error = Some (js ''Failed to get property types: connection lost'')\<rparr> \<and>
   last (calls (snd (processCSV propertyTypesFail nacionalCSV shfFile seededStorage))) =
     (GetPropertyTypes, ReturnsError storageDown) \<and>
   logUpdates (calls (snd (processCSV propertyTypesFail nacionalCSV shfFile seededStorage))) = [] \<and>
   upload_logs (snd (processCSV propertyTypesFail nacionalCSV shfFile seededStorage)) =
     [sampleLog Processing 0]"
proof -
  have a: "createLogFault propertyTypesFail = Succeeds"
    by (simp add: propertyTypesFail_def noFaults_def)
  have b: "\<not> success (fst (processCSV propertyTypesFail nacionalCSV shfFile seededStorage))"
    by (simp add: run_propertyTypesFail)
  have c: "logUpdates sampleCalls = []" by (simp add: sampleCalls_def)
  from failure_is_returned_and_log_untouched[OF a b] a b c show ?thesis
    by (simp add: run_propertyTypesFail)
qed

text \<open>
  C10. Whenever \<open>processCSV\<close> or \<open>processSHFCSV\<close> returns a failure, the count of
  records it reports is 0, whatever was committed to storage before.
\<close>

theorem failure_reports_zero_records:
  "(\<not> success (fst (processCSV f csv fname st)) \<longrightarrow>
      recordsProcessed (fst (processCSV f csv fname st)) = 0) \<and>
   (\<not> success (fst (processSHFCSV dec f file st)) \<longrightarrow>
      recordsProcessed (fst (processSHFCSV dec f file st)) = 0)"
  by (auto simp: processSHFCSV_def processCSV_def split: sum.splits prod.splits)

text \<open>
  The batch of one record is committed, then the update of the entry is rejected: the
  run fails and reports 0 records; so does the read of a file that cannot be read.
\<close>

theorem failure_reports_zero_records_witness:
  "\<not> success (fst (processCSV updateLogFails nacionalCSV shfFile seededStorage)) \<and>
   recordsProcessed (fst (processCSV updateLogFails nacionalCSV shfFile seededStorage)) = 0 \<and>
   price_indices (snd (processCSV updateLogFails nacionalCSV shfFile seededStorage)) =
     [nacionalRecord] \<and>
   \<not> success (fst (processSHFCSV (\<lambda>label buf. Inr []) updateLogFails
                   \<lparr>file_name = shfFile, file_bytes = Inl storageDown\<rparr> seededStorage)) \<and>
   recordsProcessed (fst (processSHFCSV (\<lambda>label buf. Inr []) updateLogFails
                   \<lparr>file_name = shfFile, file_bytes = Inl storageDown\<rparr> seededStorage)) = 0"
proof -
  have a: "\<not> success (fst (processCSV updateLogFails nacionalCSV shfFile seededStorage))"
    by (simp add: run_updateLogFails)
  have b: "\<not> success (fst (processSHFCSV (\<lambda>label buf. Inr []) updateLogFails
                   \<lparr>file_name = shfFile, file_bytes = Inl storageDown\<rparr> seededStorage))"
    by (simp add: processSHFCSV_def)
  from failure_reports_zero_records[of updateLogFails nacionalCSV shfFile seededStorage
         "\<lambda>label buf. Inr []" "\<lparr>file_name = shfFile, file_bytes = Inl storageDown\<rparr>"] a b
  show ?thesis
    by (simp add: run_updateLogFails) 
qed


subsection \<open>Location Resolver\<close>

lemma resolve_national_first:
  "processLocations noFaults [nacionalRow] seededStorage =
     ([js ''Nacional|national|'' \<mapsto> 100],
      seededStorage\<lparr>locations := [firstNational], next_id := 101,
        calls := [(GetLocations, Succeeds),
                  (InsertLocation \<lparr>pl_type = js ''national'', pl_name = js ''Nacional'',
                     pl_state = None\<rparr>, Succeeds)]\<rparr>)"
  by (simp add: nacionalRow_def firstNational_def sample_defs run_defs key_defs)

text \<open>
  C6. The claim is that a persisted location matching the key is reused. The national
  key is resolved once on the seeded storage, which creates the national location; it
  is resolved again on the storage that run left. The persisted national location has
  the name and the type of the key and no state, as the key, and it is not reused: the
  second resolution inserts a second national location and binds the key to it.
\<close>

theorem persisted_national_location_not_reused:
  "locationSet [nacionalRow] = [js ''Nacional|national|''] \<and>
   locations (snd (processLocations noFaults [nacionalRow] seededStorage)) = [firstNational] \<and>
   locations (snd (processLocations noFaults [nacionalRow]
                (snd (processLocations noFaults [nacionalRow] seededStorage)))) =
     [firstNational, secondNational] \<and>
   fst (processLocations noFaults [nacionalRow]
          (snd (processLocations noFaults [nacionalRow] seededStorage)))
     (js ''Nacional|national|'') = Some (loc_id secondNational) \<and>
   loc_name secondNational = loc_name firstNational \<and>
   loc_type secondNational = loc_type firstNational \<and>
   loc_state secondNational = loc_state firstNational"
  by (simp add: resolve_national_first)
     (simp add: nacionalRow_def firstNational_def secondNational_def sample_defs run_defs key_defs)

subsection \<open>Text Normalizer\<close>

lemma litsOf_lits [simp]: "litsOf (map Lit w @ p) = map ((@) w) (litsOf p)"
  by (induction w) (simp_all add: comp_def)

lemma matchHere_lits:
  "matchHere (map Lit w @ p) prev s =
     (if prefix w s
      then map_option ((+) (length w))
             (matchHere p (if w = [] then prev else Some (last w)) (drop (length w) s))
      else None)"
proof (induction w arbitrary: prev s)
  case Nil
  show ?case by (cases "matchHere p prev s") simp_all
next
  case (Cons c w)
  show ?case
  proof (cases s)
    case Nil
    then show ?thesis by simp
  next
    case (Cons d s')
    then show ?thesis
      using Cons.IH[of "Some d" s']
      by (cases "matchHere p (if w = [] then Some d else Some (last w)) (drop (length w) s')") auto
  qed
qed

lemma matchHere_WordB_end:
  "matchHere [WordB] prev s = (if wordBefore prev \<noteq> wordAt s then Some 0 else None)"
  by simp

lemma shape_literal: "matchHere (literal w) = amatch False [w]"
proof (intro ext)
  fix prev s
  show "matchHere (literal w) prev s = amatch False [w] prev s"
    using matchHere_lits[of w "[]" prev s]
    by (simp add: literal_def amatch_def hit_def)
qed

lemma shape_wholeWord: "matchHere (wholeWord w) = amatch True [w]"
proof (intro ext)
  fix prev s
  show "matchHere (wholeWord w) prev s = amatch True [w] prev s"
    using matchHere_lits[of w "[WordB]" prev s]
    by (simp add: wholeWord_def amatch_def hit_def)
qed


lemma prefix_append_drop:
  "prefix (xs @ ys) zs = (prefix xs zs \<and> prefix ys (drop (length xs) zs))"
  by (auto simp: prefix_def)

lemma matchHere_tail:
  "matchHere (map Lit w @ [WordB]) prev s =
     (if prefix w s \<and> wordBefore (if w = [] then prev else Some (last w)) \<noteq> wordAt (drop (length w) s)
      then Some (length w) else None)"
  by (simp add: matchHere_lits)

lemma optional_cases:
  "(if bnd then (if P1 then map_option ((+) n1)
                   (if A then Some (Suc n2) else if P2 then Some n2 else None)
                 else None)
    else None) =
   map_option length
     (find H [a, b])"
  if "H a = (bnd \<and> P1 \<and> A)" and "H b = (bnd \<and> P1 \<and> P2)"
    and "length a = n1 + Suc n2" and "length b = n1 + n2"
  using that by simp

lemma shape_optional:
  "matchHere (WordB # map Lit w1 @ Opt c # map Lit w2 @ [WordB]) =
     amatch True [w1 @ c # w2, w1 @ w2]"
proof (intro ext)
  fix prev :: "jschar option" and s :: jsstring
  let ?prev1 = "if w1 = [] then prev else Some (last w1)"
  let ?s1 = "drop (length w1) s"
  let ?A = "prefix (c # w2) ?s1 \<and>
          wordBefore (Some (last (c # w2))) \<noteq> wordAt (drop (Suc (length w2)) ?s1)"
  let ?P2 = "prefix w2 ?s1 \<and>
          wordBefore (if w2 = [] then ?prev1 else Some (last w2)) \<noteq> wordAt (drop (length w2) ?s1)"
  have opt: "matchHere (Opt c # map Lit w2 @ [WordB]) ?prev1 ?s1 =
      (if ?A then Some (Suc (length w2))
       else matchHere (map Lit w2 @ [WordB]) ?prev1 ?s1)"
  proof (cases ?s1)
    case Nil
    then show ?thesis by simp
  next
    case (Cons d s2)
    then show ?thesis by (simp add: matchHere_tail)
  qed
  have d1: "drop (length (w1 @ c # w2)) s = drop (Suc (length w2)) ?s1"
    by (simp add: add.commute)
  have d2: "drop (length (w1 @ w2)) s = drop (length w2) ?s1"
    by (simp add: add.commute)
  have hitA: "hit True prev s (w1 @ c # w2) = (wordBefore prev \<noteq> wordAt s \<and> prefix w1 s \<and> ?A)"
    unfolding hit_def prefix_append_drop d1 by auto
  have hitB: "hit True prev s (w1 @ w2) = (wordBefore prev \<noteq> wordAt s \<and> prefix w1 s \<and> ?P2)"
    unfolding hit_def prefix_append_drop d2 by (cases "w2 = []") auto
  have "matchHere (WordB # map Lit w1 @ Opt c # map Lit w2 @ [WordB]) prev s =
      (if wordBefore prev \<noteq> wordAt s
       then (if prefix w1 s
             then map_option ((+) (length w1)) (matchHere (Opt c # map Lit w2 @ [WordB]) ?prev1 ?s1)
             else None)
       else None)"
    using matchHere_lits[of w1 "Opt c # map Lit w2 @ [WordB]" prev s] by simp
  also have "\<dots> =
      (if wordBefore prev \<noteq> wordAt s
       then (if prefix w1 s
             then map_option ((+) (length w1))
                    (if ?A then Some (Suc (length w2))
                     else if ?P2 then Some (length w2) else None)
             else None)
       else None)"
    by (simp only: opt matchHere_tail)
  also have "\<dots> = map_option length (find (hit True prev s) [w1 @ c # w2, w1 @ w2])"
    by (rule optional_cases[where H = "hit True prev s" and a = "w1 @ c # w2" and b = "w1 @ w2"
          and bnd = "wordBefore prev \<noteq> wordAt s" and ?P1.0 = "prefix w1 s" and A = ?A
          and ?P2.0 = ?P2 and ?n1.0 = "length w1" and ?n2.0 = "length w2", OF hitA hitB])
       simp_all
  finally show "matchHere (WordB # map Lit w1 @ Opt c # map Lit w2 @ [WordB]) prev s =
      amatch True [w1 @ c # w2, w1 @ w2] prev s"
    by (simp only: amatch_def)
qed

text \<open>Where the matcher finds nothing, the replacement changes nothing.\<close>

lemma replaceWith_quiet: "quiet m prev s \<Longrightarrow> replaceWith m r prev s = s"
  by (induction s arbitrary: prev) simp_all

lemma amatch_SomeD:
  "amatch B ws prev s = Some n \<Longrightarrow> \<exists>w \<in> set ws. n = length w \<and> hit B prev s w"
  by (auto simp: amatch_def find_Some_iff)

lemma amatch_None: "(amatch B ws prev s = None) = (\<forall>w \<in> set ws. \<not> hit B prev s w)"
  by (auto simp: amatch_def find_None_iff)

lemma hit_context:
  "wordBefore prev = wordBefore prev' \<Longrightarrow> hit B prev s w = hit B prev' s w"
  by (simp add: hit_def)

lemma amatch_context:
  "wordBefore prev = wordBefore prev' \<Longrightarrow> amatch B ws prev s = amatch B ws prev' s"
  using hit_context[of prev prev' B s] by (simp add: amatch_def cong: find_cong)

lemma quiet_context:
  "wordBefore prev = wordBefore prev' \<Longrightarrow>
     quiet (amatch B ws) prev s = quiet (amatch B ws) prev' s"
  by (cases s) (simp_all add: amatch_context[of prev prev'])

lemma prefix_append_cases: "prefix w (v @ t) \<Longrightarrow> prefix w v \<or> prefix v w"
  by (metis prefixI prefix_same_cases)

lemma quiet_append:
  "quiet m prev (xs @ ys) \<Longrightarrow> quiet m (if xs = [] then prev else Some (last xs)) ys"
proof (induction xs arbitrary: prev)
  case Nil
  then show ?case by simp
next
  case (Cons a xs)
  from Cons.prems have "quiet m (Some a) (xs @ ys)" by simp
  from Cons.IH[OF this] show ?case by (cases "xs = []") simp_all
qed


lemma amatch_empty:
  "\<forall>w \<in> set ws. w \<noteq> [] \<Longrightarrow> amatch B ws prev [] = None"
  by (auto simp: amatch_None hit_def)

text \<open>The shape of a step of the scan at a match.\<close>

lemma replaceWith_Some:
  "amatch B ws prev (c # cs) = Some (Suc n) \<Longrightarrow>
     replaceWith (amatch B ws) r prev (c # cs) =
       r @ replaceWith (amatch B ws) r (Some (last (take (Suc n) (c # cs)))) (drop n cs)"
  by (simp del: take_Suc_Cons)

lemma replaceWith_None:
  "amatch B ws prev (c # cs) = None \<Longrightarrow>
     replaceWith (amatch B ws) r prev (c # cs) = c # replaceWith (amatch B ws) r (Some c) cs"
  by simp

lemma replaceWith_Nil:
  "amatch B ws prev [] = None \<Longrightarrow> replaceWith (amatch B ws) r prev [] = []"
  by simp

declare replaceWith.simps [simp del]

lemma amatch_step:
  assumes ne: "\<forall>w \<in> set ws. w \<noteq> []"
      and m: "amatch B ws prev (c # cs) = Some n"
  obtains wp where "wp \<in> set ws" "hit B prev (c # cs) wp" "wp \<noteq> []"
    "hd wp = c" "c # cs = wp @ drop (length wp - 1) cs"
    "replaceWith (amatch B ws) r prev (c # cs) =
       r @ replaceWith (amatch B ws) r (Some (last wp)) (drop (length wp - 1) cs)"
proof -
  from amatch_SomeD[OF m] obtain wp where wp: "wp \<in> set ws" "n = length wp" "hit B prev (c # cs) wp"
    by blast
  from ne wp(1) have nz: "wp \<noteq> []" by simp
  from wp(3) have pre: "prefix wp (c # cs)" by (simp add: hit_def)
  then obtain t where t: "c # cs = wp @ t" by (auto simp: prefix_def)
  with nz have hd: "hd wp = c" by (cases wp) simp_all
  from t nz have dr: "t = drop (length wp - 1) cs" by (cases wp) auto
  have len: "Suc (length wp - 1) = length wp" using nz by (cases wp) simp_all
  have tk: "take (Suc (length wp - 1)) (c # cs) = wp"
    by (simp only: t len) simp
  have "amatch B ws prev (c # cs) = Some (Suc (length wp - 1))"
    using m wp(2) len by simp
  from replaceWith_Some[OF this, of r]
  have o: "replaceWith (amatch B ws) r prev (c # cs) =
       r @ replaceWith (amatch B ws) r (Some (last wp)) (drop (length wp - 1) cs)"
    by (simp only: tk)
  have t': "c # cs = wp @ drop (length wp - 1) cs" using t dr by simp
  show ?thesis by (rule that[OF wp(1) wp(3) nz hd t' o])
qed

text \<open>
  A prefix of the output of a replacement is a prefix of the input followed by the
  same kind of character, or it runs into a replaced text.
\<close>

lemma prefix_of_replaced:
  assumes r: "r \<noteq> []"
      and wf: "\<forall>w \<in> set ws. w \<noteq> [] \<and> isWordChar (hd w) = isWordChar (hd r)"
  shows "prefix w (replaceWith (amatch B ws) r prev s) \<Longrightarrow>
           (prefix w s \<and>
            wordAt (drop (length w) (replaceWith (amatch B ws) r prev s)) = wordAt (drop (length w) s)) \<or>
           (\<exists>w'. suffix w' w \<and> w' \<noteq> [] \<and> (prefix w' r \<or> prefix r w'))"
proof (induction s arbitrary: prev w rule: length_induct)
  case (1 s)
  from wf have ne: "\<forall>w \<in> set ws. w \<noteq> []" by simp
  show ?case
  proof (cases s)
    case Nil
    have "replaceWith (amatch B ws) r prev [] = []"
      by (rule replaceWith_Nil) (rule amatch_empty[OF ne])
    with "1.prems" Nil show ?thesis by simp
  next
    case (Cons c cs)
    note s = this
    show ?thesis
    proof (cases "amatch B ws prev (c # cs)")
      case None
      note o = replaceWith_None[OF None, of r]
      show ?thesis
      proof (cases w)
        case Nil
        then show ?thesis unfolding s o by (simp add: wordAt_def)
      next
        case (Cons d w1)
        from "1.prems"[unfolded s o Cons]
        have d: "d = c" and p1: "prefix w1 (replaceWith (amatch B ws) r (Some c) cs)"
          by simp_all
        have "length cs < length s" unfolding s by simp
        from "1.IH"[rule_format, OF this p1]
        show ?thesis
        proof
          assume "prefix w1 cs \<and>
            wordAt (drop (length w1) (replaceWith (amatch B ws) r (Some c) cs)) = wordAt (drop (length w1) cs)"
          then show ?thesis unfolding s o Cons d by simp
        next
          assume "\<exists>w'. suffix w' w1 \<and> w' \<noteq> [] \<and> (prefix w' r \<or> prefix r w')"
          then obtain w' where w': "suffix w' w1" "w' \<noteq> []" "prefix w' r \<or> prefix r w'" by blast
          from w'(1) have "suffix w' w" unfolding Cons by (rule suffix_ConsI)
          with w'(2,3) show ?thesis by blast
        qed
      qed
    next
      case (Some n)
      from amatch_step[OF ne Some, of r] obtain wp where wp: "wp \<in> set ws" "wp \<noteq> []" "hd wp = c"
        and o: "replaceWith (amatch B ws) r prev (c # cs) =
                  r @ replaceWith (amatch B ws) r (Some (last wp)) (drop (length wp - 1) cs)"
        by blast
      show ?thesis
      proof (cases w)
        case Nil
        have "wordAt (r @ replaceWith (amatch B ws) r (Some (last wp)) (drop (length wp - 1) cs))
                = isWordChar (hd r)"
          using r by (cases r) (simp_all add: wordAt_def)
        moreover have "isWordChar (hd r) = isWordChar c" using wf wp by auto
        ultimately show ?thesis unfolding s o Nil by (simp add: wordAt_def)
      next
        case (Cons d w1)
        from "1.prems"[unfolded s o]
        have "prefix w (r @ replaceWith (amatch B ws) r (Some (last wp)) (drop (length wp - 1) cs))" .
        from prefix_append_cases[OF this] have "prefix w r \<or> prefix r w" .
        moreover have "suffix w w" by simp
        moreover have "w \<noteq> []" using Cons by simp
        ultimately show ?thesis by blast
      qed
    qed
  qed
qed



lemma clash_left: "suffix w' w \<Longrightarrow> w' \<noteq> [] \<Longrightarrow> prefix w' r \<or> prefix r w' \<Longrightarrow> clash w r"
  unfolding clash_def in_set_suffixes[symmetric] by blast

lemma clash_right: "suffix r' r \<Longrightarrow> r' \<noteq> [] \<Longrightarrow> prefix w r' \<or> prefix r' w \<Longrightarrow> clash w r"
  unfolding clash_def in_set_suffixes[symmetric] by blast

lemma wordAt_Cons: "wordAt (c # cs) = isWordChar c"
  by (simp add: wordAt_def)

lemma quiet_appendI:
  assumes "\<And>u v. xs = u @ v \<Longrightarrow> v \<noteq> [] \<Longrightarrow> m (if u = [] then prev else Some (last u)) (v @ ys) = None"
      and "quiet m (if xs = [] then prev else Some (last xs)) ys"
  shows "quiet m prev (xs @ ys)"
  using assms
proof (induction xs arbitrary: prev)
  case Nil
  then show ?case by simp
next
  case (Cons a xs)
  have h: "m prev ((a # xs) @ ys) = None"
    using Cons.prems(1)[of "[]" "a # xs"] by simp
  have t: "quiet m (Some a) (xs @ ys)"
  proof (rule Cons.IH)
    fix u v assume uv: "xs = u @ v" "v \<noteq> []"
    from Cons.prems(1)[of "a # u" v] uv
    show "m (if u = [] then Some a else Some (last u)) (v @ ys) = None"
      by (cases "u = []") simp_all
  next
    from Cons.prems(2) show "quiet m (if xs = [] then Some a else Some (last xs)) ys"
      by (cases "xs = []") simp_all
  qed
  from h t show ?case by simp
qed

text \<open>
  The heart of the matter: a replacement leaves the output free of matches of a
  pattern \<open>q\<close> when the replacing text clashes with no alternative of \<open>q\<close> and either
  the input was free of them or \<open>q\<close> is the pattern replaced.
\<close>

lemma replace_keeps_quiet:
  assumes r: "r \<noteq> []"
      and wf: "\<forall>w \<in> set wsp. w \<noteq> [] \<and> isWordChar (hd w) = isWordChar (hd r) \<and>
                 isWordChar (last w) = isWordChar (last r)"
      and cf: "\<forall>w \<in> set wsq. w \<noteq> [] \<and> \<not> clash w r"
  shows "wordBefore prev = wordBefore prev' \<Longrightarrow>
         (Bq = Bp \<and> wsq = wsp) \<or> quiet (amatch Bq wsq) prev s \<Longrightarrow>
         quiet (amatch Bq wsq) prev' (replaceWith (amatch Bp wsp) r prev s)"
proof (induction s arbitrary: prev prev' rule: length_induct)
  case (1 s)
  from wf have ne: "\<forall>w \<in> set wsp. w \<noteq> []" by simp
  from wf have wf1: "\<forall>w \<in> set wsp. w \<noteq> [] \<and> isWordChar (hd w) = isWordChar (hd r)" by simp
  from cf have neq: "\<forall>w \<in> set wsq. w \<noteq> []" by simp
  note ctx = "1.prems"(1)
  show ?case
  proof (cases s)
    case Nil
    have "replaceWith (amatch Bp wsp) r prev [] = []"
      by (rule replaceWith_Nil) (rule amatch_empty[OF ne])
    then show ?thesis unfolding Nil using amatch_empty[OF neq, of Bq prev'] by simp
  next
    case (Cons c cs)
    note s = this
    show ?thesis
    proof (cases "amatch Bp wsp prev (c # cs)")
      case None
      note o = replaceWith_None[OF None, of r]
      let ?o' = "replaceWith (amatch Bp wsp) r (Some c) cs"
      have inNone: "amatch Bq wsq prev (c # cs) = None"
        using "1.prems"(2) None unfolding s by auto
      have tl: "(Bq = Bp \<and> wsq = wsp) \<or> quiet (amatch Bq wsq) (Some c) cs"
        using "1.prems"(2) unfolding s by auto
      have "length cs < length s" unfolding s by simp
      from "1.IH"[rule_format, OF this refl tl]
      have q': "quiet (amatch Bq wsq) (Some c) ?o'" .
      have "\<not> hit Bq prev' (c # ?o') w" if w: "w \<in> set wsq" for w
      proof
        assume h: "hit Bq prev' (c # ?o') w"
        from neq w obtain d w1 where dw: "w = d # w1" by (cases w) auto
        from h have pre: "prefix w (c # ?o')" by (simp add: hit_def)
        then have d: "d = c" and p1: "prefix w1 ?o'" unfolding dw by simp_all
        from prefix_of_replaced[OF r wf1 p1]
        show False
        proof
          assume a: "prefix w1 cs \<and> wordAt (drop (length w1) ?o') = wordAt (drop (length w1) cs)"
          have "hit Bq prev (c # cs) w"
            using h a ctx unfolding dw d hit_def
            by (cases Bq; cases "w1 = []") (simp_all add: wordAt_Cons)
          with inNone w show False by (simp add: amatch_None)
        next
          assume "\<exists>w'. suffix w' w1 \<and> w' \<noteq> [] \<and> (prefix w' r \<or> prefix r w')"
          then obtain w' where w': "suffix w' w1" "w' \<noteq> []" "prefix w' r \<or> prefix r w'" by blast
          from w'(1) have "suffix w' w" unfolding dw by (rule suffix_ConsI)
          from clash_left[OF this w'(2,3)] cf w show False by blast
        qed
      qed
      then have "amatch Bq wsq prev' (c # ?o') = None" by (simp add: amatch_None)
      with q' show ?thesis unfolding s o by simp
    next
      case (Some n)
      from amatch_step[OF ne Some, of r] obtain wp where wp: "wp \<in> set wsp" "wp \<noteq> []"
        and split: "c # cs = wp @ drop (length wp - 1) cs"
        and o: "replaceWith (amatch Bp wsp) r prev (c # cs) =
                  r @ replaceWith (amatch Bp wsp) r (Some (last wp)) (drop (length wp - 1) cs)"
        by blast
      let ?rest = "drop (length wp - 1) cs"
      let ?o'' = "replaceWith (amatch Bp wsp) r (Some (last wp)) ?rest"
      have len: "length ?rest < length s" unfolding s by simp
      have c': "wordBefore (Some (last wp)) = wordBefore (Some (last r))"
        using wf wp(1) by (simp add: wordBefore_def)
      have tl: "(Bq = Bp \<and> wsq = wsp) \<or> quiet (amatch Bq wsq) (Some (last wp)) ?rest"
      proof (cases "Bq = Bp \<and> wsq = wsp")
        case True
        then show ?thesis by simp
      next
        case False
        with "1.prems"(2) have "quiet (amatch Bq wsq) prev (wp @ ?rest)"
          unfolding s split[symmetric] by simp
        from quiet_append[OF this] wp(2) show ?thesis by simp
      qed
      from "1.IH"[rule_format, OF len c' tl]
      have q'': "quiet (amatch Bq wsq) (Some (last r)) ?o''" .
      have "quiet (amatch Bq wsq) prev' (r @ ?o'')"
      proof (rule quiet_appendI)
        fix u v assume uv: "r = u @ v" "v \<noteq> []"
        have "\<not> hit Bq (if u = [] then prev' else Some (last u)) (v @ ?o'') w" if w: "w \<in> set wsq" for w
        proof
          assume "hit Bq (if u = [] then prev' else Some (last u)) (v @ ?o'') w"
          then have "prefix w (v @ ?o'')" by (simp add: hit_def)
          from prefix_append_cases[OF this] have pv: "prefix w v \<or> prefix v w" .
          have "suffix v r" unfolding uv(1) by (rule suffixI) simp
          from clash_right[OF this uv(2) pv] cf w show False by blast
        qed
        then show "amatch Bq wsq (if u = [] then prev' else Some (last u)) (v @ ?o'') = None"
          by (simp add: amatch_None)
      next
        from q'' r show "quiet (amatch Bq wsq) (if r = [] then prev' else Some (last r)) ?o''"
          by simp
      qed
      then show ?thesis unfolding s o .
    qed
  qed
qed

text \<open>A pattern replaced by its own text changes nothing.\<close>

lemma replace_identity:
  "w \<noteq> [] \<Longrightarrow> replaceWith (amatch B [w]) w prev s = s"
proof (induction s arbitrary: prev rule: length_induct)
  case (1 s)
  have ne: "\<forall>x \<in> set [w]. x \<noteq> []" using "1.prems" by simp
  show ?case
  proof (cases s)
    case Nil
    show ?thesis unfolding Nil by (rule replaceWith_Nil) (rule amatch_empty[OF ne])
  next
    case (Cons c cs)
    note s = this
    show ?thesis
    proof (cases "amatch B [w] prev (c # cs)")
      case None
      have "length cs < length s" unfolding s by simp
      from "1.IH"[rule_format, OF this "1.prems"] replaceWith_None[OF None, of w]
      show ?thesis unfolding s by simp
    next
      case (Some n)
      from amatch_step[OF ne Some, of w] obtain wp where wp: "wp \<in> set [w]"
        and split: "c # cs = wp @ drop (length wp - 1) cs"
        and o: "replaceWith (amatch B [w]) w prev (c # cs) =
                  w @ replaceWith (amatch B [w]) w (Some (last wp)) (drop (length wp - 1) cs)"
        by blast
      from wp have e: "wp = w" by simp
      have "length (drop (length w - 1) cs) < length s" unfolding s by simp
      from "1.IH"[rule_format, OF this "1.prems"] o[unfolded e] split[unfolded e]
      show ?thesis unfolding s by simp
    qed
  qed
qed

lemma stable_fix: "wellFormed q \<Longrightarrow> stable q s \<Longrightarrow> run1 q s = s"
  by (auto simp: wellFormed_def stable_def run1_def replace_identity replaceWith_quiet split: prod.splits)

lemma establish:
  assumes "wellFormed q" and "identityStep q \<or> clashFree q q"
  shows "stable q (run1 q s)"
proof -
  obtain B ws r where q: "q = (B, ws, r)" by (cases q)
  show ?thesis
  proof (cases "ws = [r]")
    case True
    then show ?thesis by (simp add: stable_def q)
  next
    case False
    with assms have r: "r \<noteq> []"
      and wf: "\<forall>w \<in> set ws. w \<noteq> [] \<and> isWordChar (hd w) = isWordChar (hd r) \<and>
                 isWordChar (last w) = isWordChar (last r)"
      and cf: "\<forall>w \<in> set ws. w \<noteq> [] \<and> \<not> clash w r"
      by (auto simp: q wellFormed_def identityStep_def clashFree_def)
    have "quiet (amatch B ws) None (replaceWith (amatch B ws) r None s)"
      by (rule replace_keeps_quiet[OF r wf cf refl]) simp
    then show ?thesis by (simp add: stable_def run1_def q)
  qed
qed

lemma preserve:
  assumes "wellFormed p" and "wellFormed q"
      and "identityStep q \<or> identityStep p \<or> clashFree q p"
      and "stable q s"
  shows "stable q (run1 p s)"
proof -
  obtain Bq wsq rq where q: "q = (Bq, wsq, rq)" by (cases q)
  obtain Bp wsp rp where p: "p = (Bp, wsp, rp)" by (cases p)
  show ?thesis
  proof (cases "wsq = [rq]")
    case True
    then show ?thesis by (simp add: stable_def q)
  next
    case False
    note nq = this
    show ?thesis
    proof (cases "wsp = [rp]")
      case True
      with assms(1) have "run1 p s = s"
        by (simp add: p run1_def wellFormed_def replace_identity)
      with assms(4) show ?thesis by simp
    next
      case False
      with nq assms have r: "rp \<noteq> []"
        and wf: "\<forall>w \<in> set wsp. w \<noteq> [] \<and> isWordChar (hd w) = isWordChar (hd rp) \<and>
                   isWordChar (last w) = isWordChar (last rp)"
        and cf: "\<forall>w \<in> set wsq. w \<noteq> [] \<and> \<not> clash w rp"
        and qs: "quiet (amatch Bq wsq) None s"
        by (auto simp: q p wellFormed_def identityStep_def clashFree_def stable_def)
      have "quiet (amatch Bq wsq) None (replaceWith (amatch Bp wsp) rp None s)"
        by (rule replace_keeps_quiet[OF r wf cf refl]) (simp add: qs)
      then show ?thesis by (simp add: stable_def run1_def q p)
    qed
  qed
qed

lemma preserve_all:
  assumes "wellFormed q"
      and "\<forall>p \<in> set ps. wellFormed p \<and> (identityStep q \<or> identityStep p \<or> clashFree q p)"
      and "stable q s"
  shows "stable q (runAll ps s)"
  using assms(2,3)
proof (induction ps arbitrary: s)
  case Nil
  then show ?case by (simp add: runAll_def)
next
  case (Cons p ps)
  from Cons.prems have "stable q (run1 p s)"
    by (intro preserve[OF _ assms(1)]) simp_all
  with Cons.IH[of "run1 p s"] Cons.prems(1) show ?case by (simp add: runAll_def)
qed

lemma all_stable:
  assumes "list_all wellFormed sts" and "compatible sts"
  shows "\<forall>q \<in> set sts. stable q (runAll sts s)"
  using assms
proof (induction sts arbitrary: s)
  case Nil
  then show ?case by simp
next
  case (Cons q ps)
  from Cons.prems have wq: "wellFormed q" and wps: "list_all wellFormed ps"
    and cq: "identityStep q \<or> (\<forall>p \<in> set (q # ps). identityStep p \<or> clashFree q p)"
    and cps: "compatible ps" by simp_all
  have run: "runAll (q # ps) s = runAll ps (run1 q s)" by (simp add: runAll_def)
  have "stable q (run1 q s)" using cq by (intro establish[OF wq]) auto
  moreover have "\<forall>p \<in> set ps. wellFormed p \<and> (identityStep q \<or> identityStep p \<or> clashFree q p)"
    using wps cq by (auto simp: list_all_iff)
  ultimately have "stable q (runAll ps (run1 q s))" by (intro preserve_all[OF wq])
  with Cons.IH[OF wps cps, of "run1 q s"] show ?case unfolding run by simp
qed

lemma fix_all:
  "\<forall>q \<in> set sts. wellFormed q \<and> stable q s \<Longrightarrow> runAll sts s = s"
proof (induction sts)
  case Nil
  then show ?case by (simp add: runAll_def)
next
  case (Cons q ps)
  then have "run1 q s = s" by (simp add: stable_fix)
  with Cons show ?case by (simp add: runAll_def)
qed

lemma runAll_idempotent:
  assumes "list_all wellFormed sts" and "compatible sts"
  shows "runAll sts (runAll sts s) = runAll sts s"
  using all_stable[OF assms, of s] assms(1) by (intro fix_all) (auto simp: list_all_iff)



lemma litsOf_literal: "litsOf (literal w) = [w]"
  using litsOf_lits[of w "[]"] by (simp add: literal_def)

lemma bounded_literal: "bounded (literal w) = False"
  by (cases w) (simp_all add: bounded_def literal_def)

lemma litsOf_wholeWord: "litsOf (wholeWord w) = [w]"
  using litsOf_lits[of w "[WordB]"] by (simp add: wholeWord_def)

lemma bounded_wholeWord: "bounded (wholeWord w) = True"
  by (simp add: bounded_def wholeWord_def)

lemma litsOf_optional:
  "litsOf (WordB # map Lit w1 @ Opt c # map Lit w2 @ [WordB]) = [w1 @ c # w2, w1 @ w2]"
  using litsOf_lits[of w2 "[WordB]"] by simp

lemma bounded_optional: "bounded (WordB # p) = True"
  by (simp add: bounded_def)

lemma altForm_literal: "altForm (literal w, r) = (False, [w], r)"
  by (simp add: altForm_def litsOf_literal bounded_literal)

lemma altForm_wholeWord: "altForm (wholeWord w, r) = (True, [w], r)"
  by (simp add: altForm_def litsOf_wholeWord bounded_wholeWord)

lemma altForm_optional:
  "altForm (WordB # map Lit w1 @ Opt c # map Lit w2 @ [WordB], r) = (True, [w1 @ c # w2, w1 @ w2], r)"
  by (simp add: altForm_def litsOf_optional bounded_optional del: litsOf.simps)

lemma steps_shape:
  "\<forall>st \<in> set steps. matchHere (fst st) = amatch (fst (altForm st)) (fst (snd (altForm st)))"
  unfolding steps_def encodingMap_def locationPatterns_def
  by (simp add: altForm_literal altForm_wholeWord altForm_optional
        shape_literal shape_wholeWord shape_optional del: litsOf.simps matchHere.simps)

lemma replaceAll_run1:
  "matchHere (fst st) = amatch (fst (altForm st)) (fst (snd (altForm st))) \<Longrightarrow>
     replaceAll (fst st) (snd st) s = run1 (altForm st) s"
  by (cases st) (simp add: replaceAll_def run1_def altForm_def)

lemma foldl_steps:
  "\<forall>st \<in> set sts. matchHere (fst st) = amatch (fst (altForm st)) (fst (snd (altForm st))) \<Longrightarrow>
     foldl (\<lambda>converted (p, r). replaceAll p r converted) s sts = runAll (map altForm sts) s"
proof (induction sts arbitrary: s)
  case Nil
  show ?case by (simp add: runAll_def)
next
  case (Cons st sts)
  from Cons.prems have "replaceAll (fst st) (snd st) s = run1 (altForm st) s"
    by (intro replaceAll_run1) simp
  with Cons.IH[of "run1 (altForm st) s"] Cons.prems show ?case
    by (cases st) (simp add: runAll_def)
qed

lemma convertToUTF8_steps:
  "convertToUTF8 text = (if text = [] then [] else runAll (map altForm steps) text)"
proof -
  have "foldl (\<lambda>converted (p, r). replaceAll p r converted)
          (foldl (\<lambda>converted (wrong, correct). replaceAll (literal wrong) correct converted)
             text encodingMap) locationPatterns
        = foldl (\<lambda>converted (p, r). replaceAll p r converted) text steps"
    by (simp add: steps_def foldl_map case_prod_unfold)
  then show ?thesis
    using foldl_steps[OF steps_shape, of "text"]
    by (simp add: convertToUTF8_def truthy_def)
qed



text \<open>The 35 steps of the normalizer pass the two checks.\<close>

lemma steps_wellFormed: "list_all wellFormed (map altForm steps)"
  by code_simp

lemma steps_compatible: "compatible (map altForm steps)"
  by code_simp

lemma normalizeText_convert: "normalizeText s = convertToUTF8 s"
  by (simp add: normalizeText_def convertToUTF8_def)

lemma convertToUTF8_idempotent: "convertToUTF8 (convertToUTF8 s) = convertToUTF8 s"
proof (cases "s = [] \<or> runAll (map altForm steps) s = []")
  case True
  then show ?thesis by (auto simp: convertToUTF8_steps)
next
  case False
  with runAll_idempotent[OF steps_wellFormed steps_compatible, of s]
  show ?thesis by (simp add: convertToUTF8_steps)
qed

text \<open>
  C9. The text normalizer is idempotent: normalizing a normalized text changes
  nothing. So the name and the state that \<open>processLocations\<close> normalizes a second
  time when it builds the location of a key are the texts the row carries, which were
  normalized once by the parser.
\<close>

theorem normalizeText_idempotent:
  "normalizeText (normalizeText s) = normalizeText s"
  by (simp only: normalizeText_convert convertToUTF8_idempotent)

text \<open>\<open>Nuevo Len\<close> is repaired once, and the repaired text is left alone.\<close>

lemma normalizeText_NuevoLen:
  "normalizeText (js ''Nuevo Len'') = js ''Nuevo Le'' @ [0xF3] @ js ''n''"
  by code_simp

theorem normalizeText_idempotent_witness:
  "normalizeText (normalizeText (js ''Nuevo Len'')) = js ''Nuevo Le'' @ [0xF3] @ js ''n''"
  using normalizeText_idempotent[of "js ''Nuevo Len''"] by (simp only: normalizeText_NuevoLen)

end
